theory Spec2Isabelle
  imports Main "HOL-Library.AList" "HOL-Library.Monad_Syntax"
begin

section \<open>Python string primitives used by the downloader\<close>

text \<open>
  Strings are byte strings (\<^typ>\<open>char list\<close>); a non-ASCII code point is its UTF-8 bytes.
  \<open>split_on c s\<close> is \<^verbatim>\<open>s.split(c)\<close> for a one-character separator: it never returns the
  empty list, so \<^verbatim>\<open>[-1]\<close> is \<open>last\<close> and \<^verbatim>\<open>[0]\<close> is \<open>hd\<close>.
\<close>

fun split_on :: "char \<Rightarrow> string \<Rightarrow> string list" where
  "split_on c [] = [[]]"
| "split_on c (x # xs) =
     (if x = c then [] # split_on c xs
      else (case split_on c xs of [] \<Rightarrow> [[x]] | p # ps \<Rightarrow> (x # p) # ps))"

definition is_space :: "char \<Rightarrow> bool" where
  "is_space c = (let n = (of_char c :: nat) in (9 \<le> n \<and> n \<le> 13) \<or> (28 \<le> n \<and> n \<le> 32))"

text \<open>\<^verbatim>\<open>s.strip()\<close>: leading and trailing ASCII whitespace removed.\<close>

definition strip :: "string \<Rightarrow> string" where
  "strip s = rev (dropWhile is_space (rev (dropWhile is_space s)))"

definition lower_char :: "char \<Rightarrow> char" where
  "lower_char c = (let n = (of_char c :: nat) in if 65 \<le> n \<and> n \<le> 90 then char_of (n + 32) else c)"

text \<open>\<^verbatim>\<open>s.lower()\<close> on ASCII letters.\<close>

definition lower :: "string \<Rightarrow> string" where
  "lower s = map lower_char s"

text \<open>\<^verbatim>\<open>s.endswith(t)\<close>.\<close>

definition endswith :: "string \<Rightarrow> string \<Rightarrow> bool" where
  "endswith s t = (length t \<le> length s \<and> drop (length s - length t) s = t)"

text \<open>\<^verbatim>\<open>t in s\<close> for strings: \<open>t\<close> occurs as a contiguous substring of \<open>s\<close>.\<close>

fun contains :: "string \<Rightarrow> string \<Rightarrow> bool" where
  "contains [] t = (t = [])"
| "contains (c # cs) t = (take (length t) (c # cs) = t \<or> contains cs t)"

text \<open>\<^verbatim>\<open>s.replace(a, b)\<close> for one-character \<open>a\<close> and \<open>b\<close>.\<close>

definition replace_char :: "char \<Rightarrow> char \<Rightarrow> string \<Rightarrow> string" where
  "replace_char a b s = map (\<lambda>c. if c = a then b else c) s"

definition is_digit :: "char \<Rightarrow> bool" where
  "is_digit c = (48 \<le> (of_char c :: nat) \<and> (of_char c :: nat) \<le> 57)"

definition hexval :: "char \<Rightarrow> nat option" where
  "hexval c = (let n = (of_char c :: nat) in
     if 48 \<le> n \<and> n \<le> 57 then Some (n - 48)
     else if 65 \<le> n \<and> n \<le> 70 then Some (n - 55)
     else if 97 \<le> n \<and> n \<le> 102 then Some (n - 87)
     else None)"

text \<open>
  \<^verbatim>\<open>urllib.parse.unquote\<close>: every \<^verbatim>\<open>%XX\<close> with two hexadecimal digits becomes the byte
  \<open>XX\<close>; a \<^verbatim>\<open>%\<close> not followed by two hexadecimal digits stays as it is. (The library then
  reads the bytes as UTF-8 and replaces invalid sequences; on byte strings a valid sequence
  is itself.)
\<close>

fun unquote :: "string \<Rightarrow> string" where
  "unquote [] = []"
| "unquote (c # rest) =
     (if c = CHR ''%'' then
        (case rest of
           a # b # rest' \<Rightarrow>
             (case (hexval a, hexval b) of
                (Some h, Some l) \<Rightarrow> char_of (16 * h + l) # unquote rest'
              | _ \<Rightarrow> c # unquote rest)
         | _ \<Rightarrow> c # unquote rest)
      else c # unquote rest)"

text \<open>
  \<^verbatim>\<open>int(s)\<close> on a string: surrounding whitespace is ignored, then an optional sign and
  decimal digits, which single underscores may separate. \<open>None\<close> is \<^verbatim>\<open>ValueError\<close>.
\<close>

fun int_digits :: "nat \<Rightarrow> bool \<Rightarrow> string \<Rightarrow> nat option" where
  "int_digits acc prev_digit [] = (if prev_digit then Some acc else None)"
| "int_digits acc prev_digit (c # cs) =
     (if is_digit c then int_digits (10 * acc + (of_char c - 48)) True cs
      else if c = CHR ''_'' \<and> prev_digit then int_digits acc False cs
      else None)"

definition py_int :: "string \<Rightarrow> int option" where
  "py_int s =
     (case strip s of
        [] \<Rightarrow> None
      | c # cs \<Rightarrow>
          if c = CHR ''-'' then map_option (\<lambda>n. - int n) (int_digits 0 False cs)
          else if c = CHR ''+'' then map_option int (int_digits 0 False cs)
          else map_option int (int_digits 0 False (c # cs)))"

text \<open>\<^verbatim>\<open>xs[i]\<close>: a negative index counts from the end; \<open>None\<close> is \<^verbatim>\<open>IndexError\<close>.\<close>

definition py_index :: "'a list \<Rightarrow> int \<Rightarrow> 'a option" where
  "py_index xs i =
     (let n = int (length xs); j = (if i < 0 then n + i else i)
      in if 0 \<le> j \<and> j < n then Some (xs ! nat j) else None)"

section \<open>Destination file names\<close>

text \<open>
  Lines 200-202 of \<^verbatim>\<open>download_file\<close> and line 604 of \<^verbatim>\<open>download_sccm_packages\<close>:
  \<^verbatim>\<open>unquote(url.split('/')[-1].split('?')[0])\<close>.
\<close>

definition url_filename :: "string \<Rightarrow> string" where
  "url_filename u = unquote (hd (split_on CHR ''?'' (last (split_on CHR ''/'' u))))"

text \<open>
  The specification's wording, for comparison: the query string is set aside first, the
  final segment of the remaining path is taken, and that segment is percent-decoded.
\<close>

definition final_path_segment :: "string \<Rightarrow> string" where
  "final_path_segment u = unquote (last (split_on CHR ''/'' (hd (split_on CHR ''?'' u))))"

section \<open>JSON values\<close>

text \<open>
  \<^verbatim>\<open>response.json()\<close> yields an arbitrary JSON value, and the code reads it with
  \<^verbatim>\<open>.get\<close>, truth tests and \<^verbatim>\<open>for\<close> loops. Numbers are integers here. \<open>py_get\<close> is
  \<^verbatim>\<open>x.get(k, default)\<close> and \<open>py_iter\<close> is what \<^verbatim>\<open>for item in x\<close> visits; \<open>None\<close> is the
  \<^verbatim>\<open>AttributeError\<close> or \<^verbatim>\<open>TypeError\<close> Python raises on a value of another shape.
\<close>

datatype json = JNull | JBool bool | JNum int | JStr string | JArr "json list"
  | JObj "(string \<times> json) list"

definition truthy :: "json \<Rightarrow> bool" where
  "truthy v =
     (case v of
        JNull \<Rightarrow> False
      | JBool b \<Rightarrow> b
      | JNum n \<Rightarrow> n \<noteq> 0
      | JStr s \<Rightarrow> s \<noteq> []
      | JArr xs \<Rightarrow> xs \<noteq> []
      | JObj kvs \<Rightarrow> kvs \<noteq> [])"

definition py_get :: "json \<Rightarrow> string \<Rightarrow> json \<Rightarrow> json option" where
  "py_get x k dflt =
     (case x of
        JObj kvs \<Rightarrow> Some (case map_of kvs k of Some v \<Rightarrow> v | None \<Rightarrow> dflt)
      | _ \<Rightarrow> None)"

definition py_iter :: "json \<Rightarrow> json list option" where
  "py_iter x =
     (case x of
        JArr xs \<Rightarrow> Some xs
      | JObj kvs \<Rightarrow> Some (map (\<lambda>kv. JStr (fst kv)) kvs)
      | JStr s \<Rightarrow> Some (map (\<lambda>c. JStr [c]) s)
      | _ \<Rightarrow> None)"

section \<open>Paths and the file system\<close>

text \<open>
  A \<^verbatim>\<open>pathlib\<close> path is its list of components; an absolute path starts with the
  component \<^verbatim>\<open>/\<close>. Parsing a string drops empty and \<^verbatim>\<open>.\<close> components and keeps
  \<^verbatim>\<open>..\<close>, as \<^verbatim>\<open>pathlib\<close> does. \<open>pjoin d s\<close> is \<^verbatim>\<open>d / s\<close>: an absolute \<open>s\<close> replaces \<open>d\<close>.
\<close>

type_synonym path = "string list"

definition path_parts :: "string \<Rightarrow> path" where
  "path_parts s = filter (\<lambda>c. c \<noteq> [] \<and> c \<noteq> ''.'') (split_on CHR ''/'' s)"

definition is_absolute :: "string \<Rightarrow> bool" where
  "is_absolute s = (s \<noteq> [] \<and> hd s = CHR ''/'')"

definition Path :: "string \<Rightarrow> path" where
  "Path s = (if is_absolute s then ''/'' # path_parts s else path_parts s)"

definition pjoin :: "path \<Rightarrow> string \<Rightarrow> path" where
  "pjoin d s = (if is_absolute s then Path s else d @ path_parts s)"

text \<open>\<^verbatim>\<open>p.name\<close>, \<^verbatim>\<open>p.suffix\<close> and \<^verbatim>\<open>p.stem\<close>.\<close>

definition pname :: "path \<Rightarrow> string" where
  "pname p = (if p = [] \<or> p = [''/''] then [] else last p)"

definition rfind_dot :: "string \<Rightarrow> nat option" where
  "rfind_dot s =
     (let k = length (takeWhile (\<lambda>c. c \<noteq> CHR ''.'') (rev s))
      in if k = length s then None else Some (length s - 1 - k))"

definition suffix :: "path \<Rightarrow> string" where
  "suffix p =
     (case rfind_dot (pname p) of
        None \<Rightarrow> []
      | Some i \<Rightarrow> if 0 < i \<and> i < length (pname p) - 1 then drop i (pname p) else [])"

definition stem :: "path \<Rightarrow> string" where
  "stem p =
     (case rfind_dot (pname p) of
        None \<Rightarrow> pname p
      | Some i \<Rightarrow> if 0 < i \<and> i < length (pname p) - 1 then take i (pname p) else pname p)"

fun join_with :: "string \<Rightarrow> string list \<Rightarrow> string" where
  "join_with sep [] = []"
| "join_with sep [x] = x"
| "join_with sep (x # y # ys) = x @ sep @ join_with sep (y # ys)"

text \<open>\<^verbatim>\<open>str(p)\<close>.\<close>

definition path_str :: "path \<Rightarrow> string" where
  "path_str p =
     (case p of
        [] \<Rightarrow> ''.''
      | c # cs \<Rightarrow> if c = ''/'' then ''/'' @ join_with ''/'' cs else join_with ''/'' p)"

text \<open>
  The file system is an association list from paths to nodes. A file holds bytes, or the
  JSON document that \<^verbatim>\<open>json.dump\<close> serialised into it. The working directory \<open>[]\<close> and
  the root always exist. Symbolic links, permissions and a full disk are not
  modelled: opening, writing and unlinking fail only for the reasons written below.
\<close>

datatype content = Bytes string | Document json

datatype node = File content | Dir

type_synonym fsys = "(path \<times> node) list"

definition is_dir :: "fsys \<Rightarrow> path \<Rightarrow> bool" where
  "is_dir fs p = (p = [] \<or> p = [''/''] \<or> map_of fs p = Some Dir)"

text \<open>\<^verbatim>\<open>p.exists()\<close>.\<close>

definition path_exists :: "fsys \<Rightarrow> path \<Rightarrow> bool" where
  "path_exists fs p = (is_dir fs p \<or> map_of fs p \<noteq> None)"

text \<open>\<^verbatim>\<open>list(d.iterdir())\<close>; \<open>None\<close> when \<open>d\<close> is not a directory (the call raises).\<close>

definition iterdir :: "fsys \<Rightarrow> path \<Rightarrow> path list option" where
  "iterdir fs d =
     (if is_dir fs d then Some (filter (\<lambda>p. p \<noteq> [] \<and> p \<noteq> [''/''] \<and> butlast p = d) (map fst fs))
      else None)"

text \<open>\<^verbatim>\<open>p.mkdir(exist_ok=True)\<close>; \<open>None\<close> when it raises.\<close>

definition mkdir_exist_ok :: "fsys \<Rightarrow> path \<Rightarrow> fsys option" where
  "mkdir_exist_ok fs p =
     (if is_dir fs p then Some fs
      else if map_of fs p \<noteq> None then None
      else if \<not> is_dir fs (butlast p) then None
      else Some (AList.update p Dir fs))"

text \<open>
  \<^verbatim>\<open>p.mkdir(parents=True, exist_ok=True)\<close>: every prefix of \<open>p\<close> in turn. It can only fail
  at a prefix that is a file, before anything is created when every entry of the disk has
  its parent directory.
\<close>

fun mkdir_chain :: "fsys \<Rightarrow> path \<Rightarrow> string list \<Rightarrow> fsys option" where
  "mkdir_chain fs pre [] = Some fs"
| "mkdir_chain fs pre (c # cs) =
     (case mkdir_exist_ok fs (pre @ [c]) of
        None \<Rightarrow> None
      | Some fs' \<Rightarrow> mkdir_chain fs' (pre @ [c]) cs)"

definition mkdir_parents :: "fsys \<Rightarrow> path \<Rightarrow> fsys option" where
  "mkdir_parents fs p = mkdir_chain fs [] p"

text \<open>
  \<^verbatim>\<open>open(p, 'wb')\<close> (and \<^verbatim>\<open>'w'\<close>): creates or truncates the file; raises (\<open>None\<close>) when
  \<open>p\<close> is a directory or its parent is not one.
\<close>

definition open_w :: "fsys \<Rightarrow> path \<Rightarrow> fsys option" where
  "open_w fs p =
     (if is_dir fs p then None
      else if \<not> is_dir fs (butlast p) then None
      else Some (AList.update p (File (Bytes [])) fs))"

text \<open>\<^verbatim>\<open>f.write(data)\<close> on the file opened at \<open>p\<close>: appends.\<close>

definition fs_write :: "fsys \<Rightarrow> path \<Rightarrow> string \<Rightarrow> fsys" where
  "fs_write fs p data =
     (case map_of fs p of
        Some (File (Bytes old)) \<Rightarrow> AList.update p (File (Bytes (old @ data))) fs
      | _ \<Rightarrow> fs)"

text \<open>\<^verbatim>\<open>json.dump(doc, f)\<close> on the file just opened at \<open>p\<close>.\<close>

definition fs_dump :: "fsys \<Rightarrow> path \<Rightarrow> json \<Rightarrow> fsys" where
  "fs_dump fs p doc =
     (case map_of fs p of
        Some (File old) \<Rightarrow> AList.update p (File (Document doc)) fs
      | _ \<Rightarrow> fs)"

text \<open>\<^verbatim>\<open>p.unlink()\<close>; raises (\<open>None\<close>) unless \<open>p\<close> is a regular file.\<close>

definition unlink :: "fsys \<Rightarrow> path \<Rightarrow> fsys option" where
  "unlink fs p =
     (case map_of fs p of
        Some (File old) \<Rightarrow> Some (AList.delete p fs)
      | _ \<Rightarrow> None)"

section \<open>Catalog responses and driver records\<close>

record file_info =
  name :: json
  url :: json
  fsize :: json
  sha256 :: "json option"

record driver_info =
  title :: json
  category :: json
  version :: json
  release_date :: "json option"
  files :: "file_info list"

text \<open>What \<^verbatim>\<open>session.get\<close> gives for a catalog request: an exception, or a status code
  with a body that \<^verbatim>\<open>response.json()\<close> parses (\<open>Some\<close>) or rejects (\<open>None\<close>).\<close>

datatype http = ConnectionFailed | HttpResponse nat "json option"

text \<open>Lines 137-146: the files of one item of the primary response shape.\<close>

definition v4_file :: "json \<Rightarrow> file_info option" where
  "v4_file f = do {
     n \<leftarrow> py_get f ''Name'' (JStr []);
     u \<leftarrow> py_get f ''URL'' (JStr []);
     s \<leftarrow> py_get f ''Size'' (JNum 0);
     h \<leftarrow> py_get f ''SHA256'' (JStr []);
     Some \<lparr>name = n, url = u, fsize = s, sha256 = Some h\<rparr>
   }"

fun v4_files :: "json list \<Rightarrow> file_info list \<Rightarrow> file_info list option" where
  "v4_files [] acc = Some acc"
| "v4_files (f # rest) acc =
     (case v4_file f of
        None \<Rightarrow> None
      | Some fi \<Rightarrow> v4_files rest (if truthy (url fi) then acc @ [fi] else acc))"

text \<open>Lines 128-146: one item of the primary response shape, \<open>None\<close> when it raises.\<close>

definition v4_item :: "json \<Rightarrow> driver_info option" where
  "v4_item item = do {
     t \<leftarrow> py_get item ''Title'' (JStr ''Unknown'');
     c \<leftarrow> py_get item ''Category'' (JObj []);
     cn \<leftarrow> py_get c ''Name'' (JStr ''Other'');
     v \<leftarrow> py_get item ''Version'' (JStr ''Unknown'');
     d \<leftarrow> py_get item ''Date'' (JObj []);
     du \<leftarrow> py_get d ''Unix'' (JStr []);
     fl \<leftarrow> py_get item ''Files'' (JArr []);
     fs \<leftarrow> py_iter fl;
     fis \<leftarrow> v4_files fs [];
     Some \<lparr>title = t, category = cn, version = v, release_date = Some du, files = fis\<rparr>
   }"

text \<open>
  Lines 127-149: the loop over the items appends to \<^verbatim>\<open>drivers\<close>; the flag says whether
  an exception ended it, in which case what was appended so far stays in the list.
\<close>

fun v4_items :: "json list \<Rightarrow> driver_info list \<Rightarrow> driver_info list \<times> bool" where
  "v4_items [] drivers = (drivers, False)"
| "v4_items (item # rest) drivers =
     (case v4_item item of
        None \<Rightarrow> (drivers, True)
      | Some d \<Rightarrow> v4_items rest (if files d \<noteq> [] then drivers @ [d] else drivers))"

text \<open>Lines 113-155: the primary attempt. The flag is \<open>True\<close> when line 152 returned.\<close>

definition primary_listing :: "http \<Rightarrow> driver_info list \<times> bool" where
  "primary_listing resp =
     (case resp of
        ConnectionFailed \<Rightarrow> ([], False)
      | HttpResponse status parsed \<Rightarrow>
          if status \<noteq> 200 then ([], False)
          else (case parsed of
             None \<Rightarrow> ([], False)
           | Some data \<Rightarrow>
               (case do { b \<leftarrow> py_get data ''body'' (JObj []); py_get b ''DownloadItems'' (JArr []) } of
                  None \<Rightarrow> ([], False)
                | Some downloads0 \<Rightarrow>
                    (case (if \<not> truthy downloads0 then py_get data ''DownloadItems'' (JArr [])
                           else Some downloads0) of
                       None \<Rightarrow> ([], False)
                     | Some downloads \<Rightarrow>
                         (case py_iter downloads of
                            None \<Rightarrow> ([], False)
                          | Some items \<Rightarrow>
                              (case v4_items items [] of
                                 (drivers, raised) \<Rightarrow> (drivers, \<not> raised)))))))"

text \<open>Lines 167-181: one item of the secondary response shape.\<close>

definition v2_item :: "json \<Rightarrow> driver_info option option" where
  "v2_item item = do {
     t \<leftarrow> py_get item ''Name'' (JStr ''Unknown'');
     c \<leftarrow> py_get item ''Category'' (JStr ''Other'');
     v \<leftarrow> py_get item ''Version'' (JStr []);
     u \<leftarrow> py_get item ''DownloadUrl'' (JStr []);
     if truthy u then
       (case u of
          JStr s \<Rightarrow> do {
            n \<leftarrow> py_get item ''FileName'' (JStr (last (split_on CHR ''/'' s)));
            sz \<leftarrow> py_get item ''Size'' (JNum 0);
            Some (Some \<lparr>title = t, category = c, version = v, release_date = None,
              files = [\<lparr>name = n, url = u, fsize = sz, sha256 = None\<rparr>]\<rparr>)
          }
        | _ \<Rightarrow> None)
     else Some None
   }"

fun v2_items :: "json list \<Rightarrow> driver_info list \<Rightarrow> driver_info list \<times> bool" where
  "v2_items [] drivers = (drivers, False)"
| "v2_items (item # rest) drivers =
     (case v2_item item of
        None \<Rightarrow> (drivers, True)
      | Some None \<Rightarrow> v2_items rest drivers
      | Some (Some d) \<Rightarrow> v2_items rest (drivers @ [d]))"

text \<open>Lines 158-189: the secondary attempt, starting from the list the primary one left.\<close>

definition secondary_listing :: "http \<Rightarrow> driver_info list \<Rightarrow> driver_info list" where
  "secondary_listing resp drivers =
     (case resp of
        ConnectionFailed \<Rightarrow> drivers
      | HttpResponse status parsed \<Rightarrow>
          if status \<noteq> 200 then drivers
          else (case parsed of
             None \<Rightarrow> drivers
           | Some data \<Rightarrow>
               (case py_get data ''Downloads'' (JArr []) of
                  None \<Rightarrow> drivers
                | Some downloads \<Rightarrow>
                    (case py_iter downloads of
                       None \<Rightarrow> drivers
                     | Some items \<Rightarrow> fst (v2_items items drivers)))))"

datatype py_error = ValueError | AttributeError | TypeError | IndexError | EOFError | OSError

text \<open>
  \<^verbatim>\<open>get_drivers_list\<close> on a fresh downloader. The catalog service is the environment:
  \<open>product_lookup\<close> is what \<^verbatim>\<open>get_product_info\<close> finds (\<open>None\<close>: it raises
  \<^verbatim>\<open>ValueError\<close>), \<open>drivers_v4\<close> and \<open>drivers_v2\<close> are the answers to the two listing
  requests.
\<close>

record catalog =
  product_lookup :: "json option"
  drivers_v4 :: http
  drivers_v2 :: http

definition get_drivers_list :: "string \<Rightarrow> catalog \<Rightarrow> py_error + driver_info list" where
  "get_drivers_list serial cat =
     (case product_lookup cat of
        None \<Rightarrow> Inl ValueError
      | Some product_info \<Rightarrow>
          (case py_get product_info ''Id'' (JStr serial) of
             None \<Rightarrow> Inl AttributeError
           | Some product_id \<Rightarrow>
               (case primary_listing (drivers_v4 cat) of
                  (drivers, returned) \<Rightarrow>
                    if returned then Inr drivers
                    else Inr (secondary_listing (drivers_v2 cat) drivers))))"

section \<open>The downloader and its environment\<close>

definition upper_char :: "char \<Rightarrow> char" where
  "upper_char c = (let n = (of_char c :: nat) in if 97 \<le> n \<and> n \<le> 122 then char_of (n - 32) else c)"

definition upper :: "string \<Rightarrow> string" where
  "upper s = map upper_char s"

record downloader =
  serial_number :: string
  output_dir :: path
  max_workers :: int

text \<open>\<^verbatim>\<open>__init__\<close>; \<open>None\<close> and the empty string both select the default directory.\<close>

definition init :: "string \<Rightarrow> string option \<Rightarrow> int \<Rightarrow> downloader" where
  "init serial out workers =
     (let sn = upper (strip serial)
      in \<lparr>serial_number = sn,
          output_dir = (case out of
                          None \<Rightarrow> Path (''drivers_'' @ sn)
                        | Some d \<Rightarrow> if d \<noteq> [] then Path d else Path (''drivers_'' @ sn)),
          max_workers = workers\<rparr>)"

text \<open>
  A download request either raises (\<^verbatim>\<open>session.get\<close> or \<^verbatim>\<open>raise_for_status\<close>) or gives a
  response: its \<^verbatim>\<open>content-length\<close> header if any, the body the server sends, and \<open>cut\<close>, the
  number of bytes after which the connection breaks (\<open>None\<close>: it does not).
\<close>

record response =
  content_length :: "string option"
  body :: string
  cut :: "nat option"

datatype fetch = RequestError string | Response response

fun chunks_of :: "nat \<Rightarrow> 'a list \<Rightarrow> 'a list list" where
  "chunks_of n xs = (if n = 0 \<or> xs = [] then [] else take n xs # chunks_of n (drop n xs))"

declare chunks_of.simps [simp del]

definition received :: "response \<Rightarrow> string" where
  "received r = (case cut r of None \<Rightarrow> body r | Some k \<Rightarrow> take k (body r))"

definition broken :: "response \<Rightarrow> bool" where
  "broken r = (length (received r) < length (body r))"

text \<open>\<^verbatim>\<open>response.iter_content(chunk_size=n)\<close>: the chunks it yields, and whether it then raises.\<close>

definition iter_content :: "nat \<Rightarrow> response \<Rightarrow> string list \<times> bool" where
  "iter_content n r = (chunks_of n (received r), broken r)"

text \<open>\<^verbatim>\<open>response.content\<close>: the whole body in memory, or an exception (\<open>None\<close>).\<close>

definition content_of :: "response \<Rightarrow> string option" where
  "content_of r = (if broken r then None else Some (body r))"

text \<open>
  An external tool run by \<^verbatim>\<open>subprocess.run\<close> exits with a code, exceeds its time limit, or
  cannot be started. \<open>which\<close> is \<^verbatim>\<open>shutil.which\<close>; \<open>run_proc\<close> is what a command does to the
  disk and how it ends; \<open>win32\<close> is \<^verbatim>\<open>sys.platform == 'win32'\<close>.
\<close>

datatype proc_result = Exited int | TimedOut | SpawnFailed

record tools =
  which :: "string \<Rightarrow> string option"
  run_proc :: "string list \<Rightarrow> fsys \<Rightarrow> proc_result \<times> fsys"
  win32 :: bool

text \<open>
  The state the program acts on: the disk, the log of download requests issued and the log
  of tools run with how each ended, oldest first.
\<close>

record world =
  disk :: fsys
  requests :: "string list"
  invocations :: "(string list \<times> proc_result) list"

section \<open>Transfer of one file: \<^verbatim>\<open>download_file\<close>\<close>

text \<open>
  Lines 216-222: the buffers passed to \<^verbatim>\<open>f.write\<close>, in order, and whether an exception
  ended the writing.
\<close>

definition body_writes :: "int \<Rightarrow> response \<Rightarrow> string list \<times> bool" where
  "body_writes total_size r =
     (if total_size \<noteq> 0 then
        (case iter_content 8192 r of
           (chunks, raised) \<Rightarrow> (filter (\<lambda>chunk. chunk \<noteq> []) chunks, raised))
      else
        (case content_of r of
           None \<Rightarrow> ([], True)
         | Some c \<Rightarrow> ([c], False)))"

text \<open>\<^verbatim>\<open>int(response.headers.get('content-length', 0))\<close>.\<close>

definition total_size_of :: "response \<Rightarrow> int option" where
  "total_size_of r = (case content_length r of None \<Rightarrow> Some 0 | Some s \<Rightarrow> py_int s)"

text \<open>
  Lines 209-224, the body of the \<^verbatim>\<open>try\<close>: the disk when it ends, and the message of the
  exception that ended it (\<open>None\<close>: line 224 was reached).
\<close>

definition try_download :: "(string \<Rightarrow> fetch) \<Rightarrow> string \<Rightarrow> path \<Rightarrow> fsys \<Rightarrow> fsys \<times> string option" where
  "try_download net u filepath fs =
     (case net u of
        RequestError msg \<Rightarrow> (fs, Some msg)
      | Response r \<Rightarrow>
          (case total_size_of r of
             None \<Rightarrow> (fs, Some ''invalid literal for int()'')
           | Some total_size \<Rightarrow>
               (case open_w fs filepath of
                  None \<Rightarrow> (fs, Some ''cannot open file'')
                | Some fs1 \<Rightarrow>
                    (case body_writes total_size r of
                       (bufs, raised) \<Rightarrow>
                         (foldl (\<lambda>f b. fs_write f filepath b) fs1 bufs,
                          if raised then Some ''connection broken'' else None)))))"

type_synonym dl_result = "bool \<times> string \<times> string option"

text \<open>
  Lines 226-230, the handler, after the \<^verbatim>\<open>try\<close> ended with an exception on disk \<open>fs\<close>.
  An \<^verbatim>\<open>unlink\<close> that raises leaves the function by that exception.
\<close>

definition cleanup_partial :: "fsys \<Rightarrow> path \<Rightarrow> fsys option" where
  "cleanup_partial fs filepath = (if path_exists fs filepath then unlink fs filepath else Some fs)"

definition download_file ::
  "(string \<Rightarrow> fetch) \<Rightarrow> file_info \<Rightarrow> path \<Rightarrow> world \<Rightarrow> (py_error + dl_result) \<times> world" where
  "download_file net fi category_dir w =
     (case url fi of
        JStr u \<Rightarrow>
          (let filename = url_filename u;
               filepath = pjoin category_dir filename
           in if path_exists (disk w) filepath then (Inr (True, filename, Some ''Already exists''), w)
              else
                (let w1 = w\<lparr>requests := requests w @ [u]\<rparr>
                 in case try_download net u filepath (disk w) of
                      (fs, None) \<Rightarrow> (Inr (True, filename, None), w1\<lparr>disk := fs\<rparr>)
                    | (fs, Some msg) \<Rightarrow>
                        (case cleanup_partial fs filepath of
                           None \<Rightarrow> (Inl OSError, w1\<lparr>disk := fs\<rparr>)
                         | Some fs' \<Rightarrow> (Inr (False, filename, Some msg), w1\<lparr>disk := fs'\<rparr>))))
      | _ \<Rightarrow> (Inl AttributeError, w))"

section \<open>The bulk workflow: \<^verbatim>\<open>download_all_drivers\<close>\<close>

datatype outcome = Completed | Skipped | Failed

text \<open>Lines 292-304: how the aggregator counts one finished task.\<close>

definition classify :: "py_error + dl_result \<Rightarrow> outcome" where
  "classify r =
     (case r of
        Inl e \<Rightarrow> Failed
      | Inr (success, filename, error) \<Rightarrow>
          if success then (if error = Some ''Already exists'' then Skipped else Completed)
          else Failed)"

type_synonym task = "file_info \<times> path \<times> json"

text \<open>
  The worker pool runs the tasks of lines 283-306; here they run one after the other, in
  submission order.
\<close>

fun run_tasks :: "(string \<Rightarrow> fetch) \<Rightarrow> task list \<Rightarrow> world \<Rightarrow> outcome list \<times> world" where
  "run_tasks net [] w = ([], w)"
| "run_tasks net (t # ts) w =
     (case download_file net (fst t) (fst (snd t)) w of
        (r, w') \<Rightarrow>
          (case run_tasks net ts w' of
             (outs, w'') \<Rightarrow> (classify r # outs, w'')))"

text \<open>Line 248, with the \<^verbatim>\<open>AttributeError\<close> of a category that is not a string.\<close>

fun filter_categories :: "string list \<Rightarrow> driver_info list \<Rightarrow> driver_info list option" where
  "filter_categories categories_lower [] = Some []"
| "filter_categories categories_lower (d # ds) =
     (case category d of
        JStr c \<Rightarrow>
          (case filter_categories categories_lower ds of
             None \<Rightarrow> None
           | Some kept \<Rightarrow> Some (if lower c \<in> set categories_lower then d # kept else kept))
      | _ \<Rightarrow> None)"

text \<open>The dictionaries of lines 128-146 and 167-180 as \<^verbatim>\<open>json.dump\<close> sees them.\<close>

definition file_json :: "file_info \<Rightarrow> json" where
  "file_json fi =
     JObj ([(''name'', name fi), (''url'', url fi), (''size'', fsize fi)]
           @ (case sha256 fi of None \<Rightarrow> [] | Some h \<Rightarrow> [(''sha256'', h)]))"

definition driver_json :: "driver_info \<Rightarrow> json" where
  "driver_json d =
     JObj ([(''title'', title d), (''category'', category d), (''version'', version d)]
           @ (case release_date d of None \<Rightarrow> [] | Some r \<Rightarrow> [(''release_date'', r)])
           @ [(''files'', JArr (map file_json (files d)))])"

text \<open>Lines 258-263: the manifest document; \<open>now\<close> is the formatted local time.\<close>

definition manifest :: "string \<Rightarrow> json \<Rightarrow> driver_info list \<Rightarrow> string \<Rightarrow> json" where
  "manifest serial product_info drivers now =
     JObj [(''serial_number'', JStr serial), (''product'', product_info),
           (''drivers'', JArr (map driver_json drivers)), (''download_date'', JStr now)]"

text \<open>Lines 267-274: the category directories and the task list.\<close>

fun prepare_tasks ::
  "path \<Rightarrow> driver_info list \<Rightarrow> fsys \<Rightarrow> task list \<Rightarrow> (py_error + task list) \<times> fsys" where
  "prepare_tasks out [] fs tasks = (Inr tasks, fs)"
| "prepare_tasks out (d # ds) fs tasks =
     (case category d of
        JStr c \<Rightarrow>
          (let cat = replace_char (CHR 0x5C) CHR ''-'' (replace_char CHR ''/'' CHR ''-'' c);
               category_dir = pjoin out cat
           in case mkdir_exist_ok fs category_dir of
                None \<Rightarrow> (Inl OSError, fs)
              | Some fs' \<Rightarrow>
                  prepare_tasks out ds fs' (tasks @ map (\<lambda>fi. (fi, category_dir, title d)) (files d)))
      | _ \<Rightarrow> (Inl AttributeError, fs))"

text \<open>Lines 245-249: the drivers the rest of the function works with.\<close>

definition select_drivers :: "string list option \<Rightarrow> driver_info list \<Rightarrow> driver_info list option" where
  "select_drivers categories fetched =
     (case categories of
        None \<Rightarrow> Some fetched
      | Some cs \<Rightarrow> if cs = [] then Some fetched else filter_categories (map lower cs) fetched)"

definition metadata_path :: "downloader \<Rightarrow> path" where
  "metadata_path self = pjoin (output_dir self) ''driver_manifest.json''"

text \<open>
  Lines 251-264: the output directory and the manifest, from the drivers already selected
  and the product descriptor. The flag is \<open>False\<close> when \<^verbatim>\<open>mkdir\<close> or \<^verbatim>\<open>open\<close> raised.
\<close>

definition save_manifest ::
  "downloader \<Rightarrow> json \<Rightarrow> string \<Rightarrow> driver_info list \<Rightarrow> fsys \<Rightarrow> bool \<times> fsys" where
  "save_manifest self product_info now drivers fs =
     (case mkdir_parents fs (output_dir self) of
        None \<Rightarrow> (False, fs)
      | Some fs1 \<Rightarrow>
          (case open_w fs1 (metadata_path self) of
             None \<Rightarrow> (False, fs1)
           | Some fs2 \<Rightarrow>
               (True, fs_dump fs2 (metadata_path self)
                        (manifest (serial_number self) product_info drivers now))))"

text \<open>
  \<^verbatim>\<open>download_all_drivers\<close>. The result is the exception that left the function, or the
  outcomes the summary counts (none when line 243 returns early). \<^verbatim>\<open>self.product_info\<close>
  is what \<^verbatim>\<open>get_drivers_list\<close> resolved. A pool of fewer than one worker is refused by
  the pool's constructor with \<^verbatim>\<open>ValueError\<close>.
\<close>

definition download_all_drivers ::
  "downloader \<Rightarrow> catalog \<Rightarrow> (string \<Rightarrow> fetch) \<Rightarrow> string \<Rightarrow> string list option \<Rightarrow> world
     \<Rightarrow> (py_error + outcome list) \<times> world" where
  "download_all_drivers self cat net now categories w =
     (case get_drivers_list (serial_number self) cat of
        Inl e \<Rightarrow> (Inl e, w)
      | Inr fetched \<Rightarrow>
          if fetched = [] then (Inr [], w)
          else
            (case select_drivers categories fetched of
               None \<Rightarrow> (Inl AttributeError, w)
             | Some drivers \<Rightarrow>
                 (case product_lookup cat of
                    None \<Rightarrow> (Inl ValueError, w)
                  | Some product_info \<Rightarrow>
                      (case save_manifest self product_info now drivers (disk w) of
                         (False, fs1) \<Rightarrow> (Inl OSError, w\<lparr>disk := fs1\<rparr>)
                       | (True, fs1) \<Rightarrow>
                           (case prepare_tasks (output_dir self) drivers fs1 [] of
                              (Inl e, fs2) \<Rightarrow> (Inl e, w\<lparr>disk := fs2\<rparr>)
                            | (Inr tasks, fs2) \<Rightarrow>
                                if max_workers self \<le> 0 then (Inl ValueError, w\<lparr>disk := fs2\<rparr>)
                                else
                                  (case run_tasks net tasks (w\<lparr>disk := fs2\<rparr>) of
                                     (outs, w') \<Rightarrow> (Inr outs, w')))))))"

section \<open>Specialized packages: listing and selection\<close>

record sccm_package =
  pkg_title :: json
  pkg_category :: json
  pkg_files :: "file_info list"

text \<open>Line 342; \<open>None\<close> is the \<^verbatim>\<open>AttributeError\<close> of a URL that is not a string.\<close>

fun exe_files :: "file_info list \<Rightarrow> file_info list option" where
  "exe_files [] = Some []"
| "exe_files (f # fs) =
     (case url f of
        JStr u \<Rightarrow>
          (case exe_files fs of
             None \<Rightarrow> None
           | Some kept \<Rightarrow> Some (if endswith (lower u) ''.exe'' then f # kept else kept))
      | _ \<Rightarrow> None)"

text \<open>Lines 336-350.\<close>

fun sccm_of :: "driver_info list \<Rightarrow> sccm_package list \<Rightarrow> sccm_package list option" where
  "sccm_of [] acc = Some acc"
| "sccm_of (d # ds) acc =
     (case title d of
        JStr t \<Rightarrow>
          if contains (lower t) ''sccm'' then
            (case exe_files (files d) of
               None \<Rightarrow> None
             | Some fs \<Rightarrow>
                 sccm_of ds (if fs \<noteq> []
                             then acc @ [\<lparr>pkg_title = title d, pkg_category = category d, pkg_files = fs\<rparr>]
                             else acc))
          else sccm_of ds acc
      | _ \<Rightarrow> None)"

definition get_sccm_packages :: "string \<Rightarrow> catalog \<Rightarrow> py_error + sccm_package list" where
  "get_sccm_packages serial cat =
     (case get_drivers_list serial cat of
        Inl e \<Rightarrow> Inl e
      | Inr drivers \<Rightarrow>
          (case sccm_of drivers [] of
             None \<Rightarrow> Inl AttributeError
           | Some pkgs \<Rightarrow> Inr pkgs))"

text \<open>
  Lines 559-568: the numbers of one answer, for \<open>n\<close> packages listed. \<open>None\<close> is the
  \<^verbatim>\<open>ValueError\<close> of \<^verbatim>\<open>int\<close> or of line 568.
\<close>

fun parse_numbers :: "nat \<Rightarrow> string list \<Rightarrow> int list \<Rightarrow> int list option" where
  "parse_numbers n [] indices = Some indices"
| "parse_numbers n (tok # toks) indices =
     (let num_str = strip tok
      in if num_str \<noteq> [] then
           (case py_int num_str of
              None \<Rightarrow> None
            | Some num \<Rightarrow>
                if 1 \<le> num \<and> num \<le> int n then parse_numbers n toks (indices @ [num - 1])
                else None)
         else parse_numbers n toks indices)"

text \<open>
  What \<^verbatim>\<open>input\<close> does at each prompt: it returns a line or raises
  \<^verbatim>\<open>KeyboardInterrupt\<close>; when no input is left it raises \<^verbatim>\<open>EOFError\<close>.
\<close>

datatype input_event = Line string | Interrupt

datatype selection = Cancelled | Chosen "int list" | NoInput

text \<open>Lines 547-580: the prompt loop.\<close>

fun prompt_loop :: "nat \<Rightarrow> input_event list \<Rightarrow> selection" where
  "prompt_loop n [] = NoInput"
| "prompt_loop n (Interrupt # rest) = Cancelled"
| "prompt_loop n (Line l # rest) =
     (let selection = lower (strip l)
      in if selection = ''none'' then Cancelled
         else if selection = ''all'' \<or> selection = [] then Chosen (map int [0..<n])
         else
           (case parse_numbers n (split_on CHR '','' selection) [] of
              None \<Rightarrow> prompt_loop n rest
            | Some indices \<Rightarrow>
                if indices \<noteq> [] then Chosen (sort (remdups indices))
                else prompt_loop n rest))"

text \<open>Line 583: \<^verbatim>\<open>[sccm_packages[i] for i in selected_indices]\<close>; \<open>None\<close> is \<^verbatim>\<open>IndexError\<close>.\<close>

fun select_packages :: "'a list \<Rightarrow> int list \<Rightarrow> 'a list option" where
  "select_packages pkgs [] = Some []"
| "select_packages pkgs (i # is) =
     (case py_index pkgs i of
        None \<Rightarrow> None
      | Some p \<Rightarrow>
          (case select_packages pkgs is of
             None \<Rightarrow> None
           | Some ps \<Rightarrow> Some (p # ps)))"

text \<open>Lines 751-754 of \<^verbatim>\<open>main\<close>: the indices given with \<^verbatim>\<open>--sccm-packages\<close>.\<close>

definition cli_selected_indices :: "int list option \<Rightarrow> int list option" where
  "cli_selected_indices sccm_packages_arg =
     (case sccm_packages_arg of
        None \<Rightarrow> None
      | Some args \<Rightarrow> if args \<noteq> [] then Some (map (\<lambda>idx. idx - 1) args) else None)"

section \<open>Transfer of the selected packages\<close>

text \<open>Lines 620-625: every non-empty chunk is written, whatever the declared length.\<close>

definition stream_writes :: "response \<Rightarrow> string list \<times> bool" where
  "stream_writes r =
     (case iter_content 8192 r of
        (chunks, raised) \<Rightarrow> (filter (\<lambda>chunk. chunk \<noteq> []) chunks, raised))"

text \<open>Lines 614-628, the body of the \<^verbatim>\<open>try\<close>, as \<open>try_download\<close> above.\<close>

definition try_download_sccm :: "(string \<Rightarrow> fetch) \<Rightarrow> string \<Rightarrow> path \<Rightarrow> fsys \<Rightarrow> fsys \<times> string option" where
  "try_download_sccm net u filepath fs =
     (case net u of
        RequestError msg \<Rightarrow> (fs, Some msg)
      | Response r \<Rightarrow>
          (case total_size_of r of
             None \<Rightarrow> (fs, Some ''invalid literal for int()'')
           | Some total_size \<Rightarrow>
               (case open_w fs filepath of
                  None \<Rightarrow> (fs, Some ''cannot open file'')
                | Some fs1 \<Rightarrow>
                    (case stream_writes r of
                       (bufs, raised) \<Rightarrow>
                         (foldl (\<lambda>f b. fs_write f filepath b) fs1 bufs,
                          if raised then Some ''connection broken'' else None)))))"

text \<open>
  Lines 601-633: the download loop over the files of the selected packages. It returns
  \<^verbatim>\<open>downloaded_files\<close>, or the exception that left the loop.
\<close>

fun sccm_download ::
  "(string \<Rightarrow> fetch) \<Rightarrow> path \<Rightarrow> file_info list \<Rightarrow> path list \<Rightarrow> world \<Rightarrow> (py_error + path list) \<times> world" where
  "sccm_download net sccm_dir [] downloaded_files w = (Inr downloaded_files, w)"
| "sccm_download net sccm_dir (fi # rest) downloaded_files w =
     (case url fi of
        JStr u \<Rightarrow>
          (let filename = url_filename u;
               filepath = pjoin sccm_dir filename
           in if path_exists (disk w) filepath
              then sccm_download net sccm_dir rest (downloaded_files @ [filepath]) w
              else
                (let w1 = w\<lparr>requests := requests w @ [u]\<rparr>
                 in case try_download_sccm net u filepath (disk w) of
                      (fs, None) \<Rightarrow>
                        sccm_download net sccm_dir rest (downloaded_files @ [filepath]) (w1\<lparr>disk := fs\<rparr>)
                    | (fs, Some msg) \<Rightarrow>
                        (case cleanup_partial fs filepath of
                           None \<Rightarrow> (Inl OSError, w1\<lparr>disk := fs\<rparr>)
                         | Some fs' \<Rightarrow>
                             sccm_download net sccm_dir rest downloaded_files (w1\<lparr>disk := fs'\<rparr>))))
      | _ \<Rightarrow> (Inl AttributeError, w))"

section \<open>The extraction pipeline\<close>

text \<open>\<^verbatim>\<open>subprocess.run(cmd, ...)\<close>: the tool acts on the disk and the run is logged.\<close>

definition invoke :: "tools \<Rightarrow> string list \<Rightarrow> world \<Rightarrow> proc_result \<times> world" where
  "invoke t cmd w =
     (case run_proc t cmd (disk w) of
        (r, fs) \<Rightarrow> (r, w\<lparr>disk := fs, invocations := invocations w @ [(cmd, r)]\<rparr>))"

text \<open>The truth value of a \<^verbatim>\<open>shutil.which\<close> result.\<close>

definition found :: "string option \<Rightarrow> bool" where
  "found r = (case r of None \<Rightarrow> False | Some p \<Rightarrow> p \<noteq> [])"

definition artifacts :: "string list" where
  "artifacts = [''[0]'', ''CERTIFICATE'', ''[1]'', ''[2]'']"

text \<open>Lines 506-514: \<^verbatim>\<open>_cleanup_extract_artifacts\<close>; an \<^verbatim>\<open>unlink\<close> that raises is ignored.\<close>

definition remove_artifact :: "path \<Rightarrow> fsys \<Rightarrow> string \<Rightarrow> fsys" where
  "remove_artifact extract_dir fs artifact =
     (let artifact_path = pjoin extract_dir artifact
      in if path_exists fs artifact_path
         then (case unlink fs artifact_path of None \<Rightarrow> fs | Some fs' \<Rightarrow> fs')
         else fs)"

definition cleanup_extract_artifacts :: "path \<Rightarrow> fsys \<Rightarrow> fsys" where
  "cleanup_extract_artifacts extract_dir fs = foldl (remove_artifact extract_dir) fs artifacts"

text \<open>\<^verbatim>\<open>any(d.iterdir())\<close>; \<open>None\<close> when \<^verbatim>\<open>iterdir\<close> raises.\<close>

definition any_iterdir :: "fsys \<Rightarrow> path \<Rightarrow> bool option" where
  "any_iterdir fs d = map_option (\<lambda>entries. entries \<noteq> []) (iterdir fs d)"

text \<open>
  Lines 370-403: \<^verbatim>\<open>_extract_sccm_windows\<close>. Every exception inside is caught and gives
  \<open>False\<close>.
\<close>

definition exit_or_populated :: "proc_result \<Rightarrow> fsys \<Rightarrow> path \<Rightarrow> bool option" where
  "exit_or_populated r fs extract_dir =
     (case r of
        Exited rc \<Rightarrow> if rc = 0 then Some True else any_iterdir fs extract_dir
      | _ \<Rightarrow> None)"

definition extract_sccm_windows :: "tools \<Rightarrow> path \<Rightarrow> path \<Rightarrow> world \<Rightarrow> bool \<times> world" where
  "extract_sccm_windows t exe_path extract_dir w =
     (case invoke t [path_str exe_path, ''/VERYSILENT'', ''/DIR='' @ path_str extract_dir] w of
        (r1, w1) \<Rightarrow>
          (case exit_or_populated r1 (disk w1) extract_dir of
             None \<Rightarrow> (False, w1)
           | Some True \<Rightarrow> (True, w1)
           | Some False \<Rightarrow>
               (case invoke t [path_str exe_path, ''/extract:'' @ path_str extract_dir] w1 of
                  (r2, w2) \<Rightarrow>
                    (case exit_or_populated r2 (disk w2) extract_dir of
                       None \<Rightarrow> (False, w2)
                     | Some ok \<Rightarrow> (ok, w2)))))"

text \<open>Lines 409-413: the first of \<^verbatim>\<open>7z\<close>, \<^verbatim>\<open>7zz\<close>, \<^verbatim>\<open>7za\<close> that is installed.\<close>

fun find_sevenz :: "tools \<Rightarrow> string list \<Rightarrow> string option" where
  "find_sevenz t [] = None"
| "find_sevenz t (cmd # cmds) = (if found (which t cmd) then Some cmd else find_sevenz t cmds)"

text \<open>
  One stage-2 attempt (lines 454-463, 467-476, 479-488): the tool exits with 0, the
  artifacts are removed and the function returns \<open>True\<close> (\<open>Won\<close>); it exits with another
  code and the next alternative is tried (\<open>Lost\<close>); the run raises and the handlers of
  lines 499-504 return \<open>False\<close> (\<open>Aborted\<close>).
\<close>

datatype attempt = Won | Lost | Aborted

definition attempt_inner :: "tools \<Rightarrow> string list \<Rightarrow> path \<Rightarrow> world \<Rightarrow> attempt \<times> world" where
  "attempt_inner t cmd extract_dir w =
     (case invoke t cmd w of
        (Exited rc, w') \<Rightarrow>
          if rc = 0 then (Won, w'\<lparr>disk := cleanup_extract_artifacts extract_dir (disk w')\<rparr>)
          else (Lost, w')
      | (_, w') \<Rightarrow> (Aborted, w'))"

definition cabextract_cmd :: "tools \<Rightarrow> path \<Rightarrow> path \<Rightarrow> string list" where
  "cabextract_cmd t extract_dir payload_file =
     [case which t ''cabextract'' of None \<Rightarrow> [] | Some c \<Rightarrow> c, ''-d'', path_str extract_dir,
      path_str payload_file]"

definition innoextract_cmd :: "tools \<Rightarrow> path \<Rightarrow> path \<Rightarrow> string list" where
  "innoextract_cmd t extract_dir payload_file =
     [case which t ''innoextract'' of None \<Rightarrow> [] | Some c \<Rightarrow> c, ''-d'', path_str extract_dir,
      path_str payload_file]"

definition sevenz_inner_cmd :: "string \<Rightarrow> path \<Rightarrow> path \<Rightarrow> string list" where
  "sevenz_inner_cmd sevenz_cmd extract_dir payload_file =
     [sevenz_cmd, ''x'', ''-y'', ''-o'' @ path_str extract_dir, ''-t*'', path_str payload_file]"

text \<open>Lines 449-497: stage 2, on the payload the outer unpack left.\<close>

definition extract_inner :: "tools \<Rightarrow> string \<Rightarrow> path \<Rightarrow> path \<Rightarrow> world \<Rightarrow> bool \<times> world" where
  "extract_inner t sevenz_cmd extract_dir payload_file w =
     (case (if found (which t ''cabextract'')
            then attempt_inner t (cabextract_cmd t extract_dir payload_file) extract_dir w
            else (Lost, w)) of
        (Won, w1) \<Rightarrow> (True, w1)
      | (Aborted, w1) \<Rightarrow> (False, w1)
      | (Lost, w1) \<Rightarrow>
          (case (if found (which t ''innoextract'')
                 then attempt_inner t (innoextract_cmd t extract_dir payload_file) extract_dir w1
                 else (Lost, w1)) of
             (Won, w2) \<Rightarrow> (True, w2)
           | (Aborted, w2) \<Rightarrow> (False, w2)
           | (Lost, w2) \<Rightarrow>
               (case attempt_inner t (sevenz_inner_cmd sevenz_cmd extract_dir payload_file) extract_dir w2 of
                  (Won, w3) \<Rightarrow> (True, w3)
                | (_, w3) \<Rightarrow> (False, w3))))"

text \<open>Lines 405-504: \<^verbatim>\<open>_extract_sccm_unix\<close>.\<close>

definition extract_sccm_unix :: "tools \<Rightarrow> path \<Rightarrow> path \<Rightarrow> world \<Rightarrow> bool \<times> world" where
  "extract_sccm_unix t exe_path extract_dir w =
     (case find_sevenz t [''7z'', ''7zz'', ''7za''] of
        None \<Rightarrow> (False, w)
      | Some sevenz_cmd \<Rightarrow>
          (case invoke t [sevenz_cmd, ''x'', ''-y'', ''-o'' @ path_str extract_dir, path_str exe_path] w of
             (Exited rc, w1) \<Rightarrow>
               if rc \<noteq> 0 then (False, w1)
               else
                 (let payload_file = pjoin extract_dir ''[0]''
                  in if \<not> path_exists (disk w1) payload_file then (True, w1)
                     else extract_inner t sevenz_cmd extract_dir payload_file w1)
           | (_, w1) \<Rightarrow> (False, w1)))"

text \<open>Lines 352-368: \<^verbatim>\<open>extract_sccm_package\<close>; the \<^verbatim>\<open>mkdir\<close> is outside every \<^verbatim>\<open>try\<close>.\<close>

definition extract_sccm_package :: "tools \<Rightarrow> path \<Rightarrow> path \<Rightarrow> world \<Rightarrow> (py_error + bool) \<times> world" where
  "extract_sccm_package t exe_path extract_dir w =
     (case mkdir_parents (disk w) extract_dir of
        None \<Rightarrow> (Inl OSError, w)
      | Some fs \<Rightarrow>
          (case (if win32 t then extract_sccm_windows t exe_path extract_dir (w\<lparr>disk := fs\<rparr>)
                 else extract_sccm_unix t exe_path extract_dir (w\<lparr>disk := fs\<rparr>)) of
             (ok, w') \<Rightarrow> (Inr ok, w')))"

text \<open>
  Lines 639-645: the extraction step for one downloaded file. \<open>Some e\<close> is the exception
  that leaves \<^verbatim>\<open>download_sccm_packages\<close>.
\<close>

definition already_extracted :: "fsys \<Rightarrow> path \<Rightarrow> bool option" where
  "already_extracted fs extract_dir =
     (if path_exists fs extract_dir then any_iterdir fs extract_dir else Some False)"

definition extract_step :: "tools \<Rightarrow> path \<Rightarrow> path \<Rightarrow> world \<Rightarrow> py_error option \<times> world" where
  "extract_step t sccm_dir filepath w =
     (if lower (suffix filepath) = ''.exe'' then
        (let extract_dir = pjoin sccm_dir (stem filepath)
         in case already_extracted (disk w) extract_dir of
              None \<Rightarrow> (Some OSError, w)
            | Some True \<Rightarrow> (None, w)
            | Some False \<Rightarrow>
                (case extract_sccm_package t filepath extract_dir w of
                   (Inl e, w') \<Rightarrow> (Some e, w')
                 | (Inr ok, w') \<Rightarrow> (None, w')))
      else (None, w))"

text \<open>Lines 636-645: the loop over \<^verbatim>\<open>downloaded_files\<close>.\<close>

fun extract_all :: "tools \<Rightarrow> path \<Rightarrow> path list \<Rightarrow> world \<Rightarrow> py_error option \<times> world" where
  "extract_all t sccm_dir [] w = (None, w)"
| "extract_all t sccm_dir (filepath # rest) w =
     (case extract_step t sccm_dir filepath w of
        (Some e, w') \<Rightarrow> (Some e, w')
      | (None, w') \<Rightarrow> extract_all t sccm_dir rest w')"

section \<open>The specialized-package workflow: \<^verbatim>\<open>download_sccm_packages\<close>\<close>

text \<open>
  How the function ends: by an exception, or at one of its \<^verbatim>\<open>return\<close>s (lines 530, 553
  and 580, 587), or at its end with \<^verbatim>\<open>downloaded_files\<close>.
\<close>

datatype sccm_result = Raised py_error | NoPackages | SelectionCancelled | NothingSelected
  | Finished "path list"

text \<open>Lines 541-583: the indices to use, given or asked for.\<close>

definition choose_indices :: "nat \<Rightarrow> int list option \<Rightarrow> input_event list \<Rightarrow> selection" where
  "choose_indices n selected_indices inputs =
     (case selected_indices of
        None \<Rightarrow> prompt_loop n inputs
      | Some indices \<Rightarrow> Chosen indices)"

text \<open>Lines 593-645, once the packages are selected.\<close>

definition fetch_and_extract ::
  "downloader \<Rightarrow> (string \<Rightarrow> fetch) \<Rightarrow> tools \<Rightarrow> bool \<Rightarrow> sccm_package list \<Rightarrow> world
     \<Rightarrow> sccm_result \<times> world" where
  "fetch_and_extract self net t extract selected_packages w =
     (case mkdir_parents (disk w) (output_dir self) of
        None \<Rightarrow> (Raised OSError, w)
      | Some fs1 \<Rightarrow>
          (let sccm_dir = pjoin (output_dir self) ''SCCM''
           in case mkdir_exist_ok fs1 sccm_dir of
                None \<Rightarrow> (Raised OSError, w\<lparr>disk := fs1\<rparr>)
              | Some fs2 \<Rightarrow>
                  (case sccm_download net sccm_dir (concat (map pkg_files selected_packages)) []
                          (w\<lparr>disk := fs2\<rparr>) of
                     (Inl e, w1) \<Rightarrow> (Raised e, w1)
                   | (Inr downloaded_files, w1) \<Rightarrow>
                       if extract \<and> downloaded_files \<noteq> [] then
                         (case extract_all t sccm_dir downloaded_files w1 of
                            (Some e, w2) \<Rightarrow> (Raised e, w2)
                          | (None, w2) \<Rightarrow> (Finished downloaded_files, w2))
                       else (Finished downloaded_files, w1))))"

definition download_sccm_packages ::
  "downloader \<Rightarrow> catalog \<Rightarrow> (string \<Rightarrow> fetch) \<Rightarrow> tools \<Rightarrow> input_event list \<Rightarrow> bool
     \<Rightarrow> int list option \<Rightarrow> world \<Rightarrow> sccm_result \<times> world" where
  "download_sccm_packages self cat net t inputs extract selected_indices w =
     (case get_sccm_packages (serial_number self) cat of
        Inl e \<Rightarrow> (Raised e, w)
      | Inr sccm_packages \<Rightarrow>
          if sccm_packages = [] then (NoPackages, w)
          else
            (case choose_indices (length sccm_packages) selected_indices inputs of
               Cancelled \<Rightarrow> (SelectionCancelled, w)
             | NoInput \<Rightarrow> (Raised EOFError, w)
             | Chosen indices \<Rightarrow>
                 (case select_packages sccm_packages indices of
                    None \<Rightarrow> (Raised IndexError, w)
                  | Some selected_packages \<Rightarrow>
                      if selected_packages = [] then (NothingSelected, w)
                      else fetch_and_extract self net t extract selected_packages w)))"

text \<open>Lines 750-755 of \<^verbatim>\<open>main\<close>: the \<^verbatim>\<open>--sccm\<close> branch.\<close>

definition main_sccm ::
  "string \<Rightarrow> string option \<Rightarrow> int \<Rightarrow> int list option \<Rightarrow> bool \<Rightarrow> catalog \<Rightarrow> (string \<Rightarrow> fetch)
     \<Rightarrow> tools \<Rightarrow> input_event list \<Rightarrow> world \<Rightarrow> sccm_result \<times> world" where
  "main_sccm serial out workers sccm_packages_arg no_extract cat net t inputs w =
     download_sccm_packages (init serial out workers) cat net t inputs (\<not> no_extract)
       (cli_selected_indices sccm_packages_arg) w"

section \<open>Auxiliary notions and sample data\<close>

text \<open>A driver record as the resolver may emit it: it has files, each with a URL that counts as true.\<close>

definition retained :: "driver_info \<Rightarrow> bool" where
  "retained d = (files d \<noteq> [] \<and> (\<forall>f \<in> set (files d). truthy (url f)))"

text \<open>
  A catalog answer in the primary shape with three items, the last one without any URL,
  and the two records it is normalised to.
\<close>

definition sample_items :: "json list" where
  "sample_items =
     [JObj [(''Title'', JStr ''BIOS Update''), (''Category'', JObj [(''Name'', JStr ''BIOS'')]),
            (''Files'', JArr [JObj [(''Name'', JStr ''BIOS Update Utility''),
                                    (''URL'', JStr ''https://host/path/bios_1.2.exe?sig=abc'')]])],
      JObj [(''Title'', JStr ''Audio Driver''), (''Category'', JObj [(''Name'', JStr ''Audio'')]),
            (''Files'', JArr [JObj [(''URL'', JStr ''https://host/path/audio.exe'')]])],
      JObj [(''Title'', JStr ''Readme''), (''Files'', JArr [JObj [(''Name'', JStr ''readme'')]])]]"

definition sample_product :: json where
  "sample_product = JObj [(''Id'', JStr ''20XW''), (''Name'', JStr ''ThinkPad'')]"

definition sample_catalog :: catalog where
  "sample_catalog =
     \<lparr>product_lookup = Some sample_product,
      drivers_v4 = HttpResponse 200 (Some (JObj [(''body'', JObj [(''DownloadItems'', JArr sample_items)])])),
      drivers_v2 = ConnectionFailed\<rparr>"

definition bios_file :: file_info where
  "bios_file = \<lparr>name = JStr ''BIOS Update Utility'', url = JStr ''https://host/path/bios_1.2.exe?sig=abc'',
                 fsize = JNum 0, sha256 = Some (JStr [])\<rparr>"

definition bios_driver :: driver_info where
  "bios_driver = \<lparr>title = JStr ''BIOS Update'', category = JStr ''BIOS'', version = JStr ''Unknown'',
                   release_date = Some (JStr []), files = [bios_file]\<rparr>"

definition audio_file :: file_info where
  "audio_file = \<lparr>name = JStr [], url = JStr ''https://host/path/audio.exe'',
                  fsize = JNum 0, sha256 = Some (JStr [])\<rparr>"

definition audio_driver :: driver_info where
  "audio_driver = \<lparr>title = JStr ''Audio Driver'', category = JStr ''Audio'', version = JStr ''Unknown'',
                    release_date = Some (JStr []), files = [audio_file]\<rparr>"

text \<open>The destination path of a task, when its URL is a string.\<close>

definition task_dest :: "task \<Rightarrow> path option" where
  "task_dest t =
     (case url (fst t) of
        JStr u \<Rightarrow> Some (pjoin (fst (snd t)) (url_filename u))
      | _ \<Rightarrow> None)"

text \<open>Two networks, a disk with the category directory, and one task.\<close>

definition net_down :: "string \<Rightarrow> fetch" where
  "net_down u = RequestError ''503 Server Error''"

definition net_ok :: "string \<Rightarrow> fetch" where
  "net_ok u = Response \<lparr>content_length = Some ''2'', body = ''MZ'', cut = None\<rparr>"

definition sample_world :: world where
  "sample_world = \<lparr>disk = [([''out''], Dir), ([''out'', ''BIOS''], Dir)], requests = [], invocations = []\<rparr>"





text \<open>A response of 8193 bytes without a \<^verbatim>\<open>content-length\<close> header, and a short one with it.\<close>

definition big_response :: response where
  "big_response = \<lparr>content_length = None, body = replicate 8193 (CHR ''a''), cut = None\<rparr>"

definition small_response :: response where
  "small_response = \<lparr>content_length = Some ''2'', body = ''MZ'', cut = None\<rparr>"

text \<open>The drivers line 248 keeps, as a filter; with no categories given all are kept.\<close>

definition in_categories :: "string list \<Rightarrow> driver_info \<Rightarrow> bool" where
  "in_categories cs d = (case category d of JStr c \<Rightarrow> lower c \<in> set (map lower cs) | _ \<Rightarrow> False)"

definition kept_drivers :: "string list option \<Rightarrow> driver_info list \<Rightarrow> driver_info list" where
  "kept_drivers categories fetched =
     (case categories of
        None \<Rightarrow> fetched
      | Some cs \<Rightarrow> if cs = [] then fetched else filter (in_categories cs) fetched)"

text \<open>A downloader, an empty state, and the state a filtered run leaves.\<close>

definition sample_downloader :: downloader where
  "sample_downloader = init '' pf1234ab '' (Some ''out'') 4"

definition empty_world :: world where
  "empty_world = \<lparr>disk = [], requests = [], invocations = []\<rparr>"

definition filtered_world :: world where
  "filtered_world =
     \<lparr>disk = [([''out''], Dir),
              ([''out'', ''driver_manifest.json''],
               File (Document (manifest ''PF1234AB'' sample_product [bios_driver] ''2024-05-01 10:00:00''))),
              ([''out'', ''BIOS''], Dir)],
      requests = [''https://host/path/bios_1.2.exe?sig=abc''], invocations = []\<rparr>"

text \<open>
  A host with the three tools, on which \<^verbatim>\<open>7z\<close> leaves a payload and a certificate,
  \<^verbatim>\<open>cabextract\<close> fails and \<^verbatim>\<open>innoextract\<close> unpacks one driver file; and the states of one
  archive before and after its extraction.
\<close>

definition sample_tools :: tools where
  "sample_tools =
     \<lparr>which = (\<lambda>c. if c = ''7z'' then Some ''/usr/bin/7z''
                    else if c = ''cabextract'' then Some ''/usr/bin/cabextract''
                    else if c = ''innoextract'' then Some ''/usr/bin/innoextract''
                    else None),
      run_proc = (\<lambda>cmd fs.
         case cmd of
           [] \<Rightarrow> (SpawnFailed, fs)
         | c # args \<Rightarrow>
             if c = ''7z'' then
               (Exited 0, AList.update [''out'', ''SCCM'', ''pack'', ''CERTIFICATE''] (File (Bytes ''cert''))
                            (AList.update [''out'', ''SCCM'', ''pack'', ''[0]''] (File (Bytes ''payload'')) fs))
             else if c = ''/usr/bin/cabextract'' then (Exited 1, fs)
             else if c = ''/usr/bin/innoextract'' then
               (Exited 0, AList.update [''out'', ''SCCM'', ''pack'', ''net.inf''] (File (Bytes ''inf'')) fs)
             else (SpawnFailed, fs)),
      win32 = False\<rparr>"

definition archive_world :: world where
  "archive_world =
     \<lparr>disk = [([''out''], Dir), ([''out'', ''SCCM''], Dir),
              ([''out'', ''SCCM'', ''pack.exe''], File (Bytes ''MZ''))],
      requests = [], invocations = []\<rparr>"

definition extracted_world :: world where
  "extracted_world =
     \<lparr>disk = [([''out''], Dir), ([''out'', ''SCCM''], Dir),
              ([''out'', ''SCCM'', ''pack.exe''], File (Bytes ''MZ'')),
              ([''out'', ''SCCM'', ''pack''], Dir),
              ([''out'', ''SCCM'', ''pack'', ''net.inf''], File (Bytes ''inf''))],
      requests = [],
      invocations =
        [([''7z'', ''x'', ''-y'', ''-oout/SCCM/pack'', ''out/SCCM/pack.exe''], Exited 0),
         ([''/usr/bin/cabextract'', ''-d'', ''out/SCCM/pack'', ''out/SCCM/pack/[0]''], Exited 1),
         ([''/usr/bin/innoextract'', ''-d'', ''out/SCCM/pack'', ''out/SCCM/pack/[0]''], Exited 0)]\<rparr>"

text \<open>
  The stage-2 alternatives lines 453-488 can run, in their order, and the same stage as a
  loop over them, to reason about the order.
\<close>

definition exited_nonzero :: "proc_result \<Rightarrow> bool" where
  "exited_nonzero r = (case r of Exited rc \<Rightarrow> rc \<noteq> 0 | _ \<Rightarrow> False)"

definition inner_candidates :: "tools \<Rightarrow> string \<Rightarrow> path \<Rightarrow> path \<Rightarrow> string list list" where
  "inner_candidates t sevenz_cmd extract_dir payload_file =
     (if found (which t ''cabextract'') then [cabextract_cmd t extract_dir payload_file] else [])
     @ (if found (which t ''innoextract'') then [innoextract_cmd t extract_dir payload_file] else [])
     @ [sevenz_inner_cmd sevenz_cmd extract_dir payload_file]"

fun try_candidates :: "tools \<Rightarrow> path \<Rightarrow> string list list \<Rightarrow> world \<Rightarrow> bool \<times> world" where
  "try_candidates t extract_dir [] w = (False, w)"
| "try_candidates t extract_dir (cmd # cmds) w =
     (case attempt_inner t cmd extract_dir w of
        (Won, w') \<Rightarrow> (True, w')
      | (Lost, w') \<Rightarrow> try_candidates t extract_dir cmds w'
      | (Aborted, w') \<Rightarrow> (False, w'))"

definition unpack_world :: world where
  "unpack_world =
     \<lparr>disk = [([''out''], Dir), ([''out'', ''SCCM''], Dir),
              ([''out'', ''SCCM'', ''pack.exe''], File (Bytes ''MZ'')),
              ([''out'', ''SCCM'', ''pack''], Dir)],
      requests = [], invocations = []\<rparr>"

definition outer_world :: world where
  "outer_world =
     \<lparr>disk = [([''out''], Dir), ([''out'', ''SCCM''], Dir),
              ([''out'', ''SCCM'', ''pack.exe''], File (Bytes ''MZ'')),
              ([''out'', ''SCCM'', ''pack''], Dir),
              ([''out'', ''SCCM'', ''pack'', ''[0]''], File (Bytes ''payload'')),
              ([''out'', ''SCCM'', ''pack'', ''CERTIFICATE''], File (Bytes ''cert''))],
      requests = [],
      invocations = [([''7z'', ''x'', ''-y'', ''-oout/SCCM/pack'', ''out/SCCM/pack.exe''], Exited 0)]\<rparr>"

section \<open>Properties of the selection layer\<close>

lemma py_index_nat: "i < length xs \<Longrightarrow> py_index xs (int i) = Some (xs ! i)"
  by (simp add: py_index_def)

lemma select_packages_upt:
  "i \<le> length pkgs \<Longrightarrow> select_packages pkgs (map int [i..<length pkgs]) = Some (drop i pkgs)"
proof (induction "length pkgs - i" arbitrary: i)
  case 0
  then show ?case by simp
next
  case (Suc k)
  then have lt: "i < length pkgs" and le: "Suc i \<le> length pkgs" and k: "k = length pkgs - Suc i"
    by simp_all
  have "[i..<length pkgs] = i # [Suc i..<length pkgs]"
    using lt by (simp add: upt_conv_Cons)
  then show ?case
    using Suc.hyps(1)[OF k le] lt by (simp add: py_index_nat Cons_nth_drop_Suc)
qed

lemma strip_Nil: "strip [] = []"
  by (simp add: strip_def)

lemma lower_Nil: "lower [] = []"
  by (simp add: lower_def)

lemma lower_strip_all: "lower (strip ''all'') = ''all''"
  by code_simp

text \<open>
  Claim C10. At the interactive prompt an empty line does what the answer \<^verbatim>\<open>all\<close> does:
  the loop ends with the indices \<open>0, \<dots>, n - 1\<close>, and line 583 then selects every listed
  package.
\<close>

theorem empty_line_selects_all:
  "prompt_loop n (Line [] # rest) = Chosen (map int [0..<n])
   \<and> prompt_loop n (Line [] # rest) = prompt_loop n (Line ''all'' # rest)
   \<and> select_packages pkgs (map int [0..<length pkgs]) = Some pkgs"
  using select_packages_upt [of 0 pkgs]
  by (simp add: strip_Nil lower_Nil lower_strip_all)

text \<open>
  What the interactive prompt does with the answers of the specification's examples, for
  five packages: \<^verbatim>\<open>1,3\<close> gives the indices 0 and 2, \<^verbatim>\<open>0\<close> and \<^verbatim>\<open>6\<close> are rejected and
  the prompt is shown again, \<^verbatim>\<open>none\<close> leaves the function with the state untouched. Given
  on the command line, 6 becomes index 5 and line 583 raises \<^verbatim>\<open>IndexError\<close> before any
  download, while 0 goes through to the downloads.
\<close>

lemma answer_1_3:
  "lower (strip ''1,3'') = ''1,3''
   \<and> parse_numbers 5 (split_on CHR '','' ''1,3'') [] = Some [0, 2]
   \<and> sort (remdups [0, 2 :: int]) = [0, 2]"
  by code_simp

lemma prompt_1_3: "prompt_loop 5 (Line ''1,3'' # rest) = Chosen [0, 2]"
  using answer_1_3 by simp

lemma answer_0: "lower (strip ''0'') = ''0'' \<and> parse_numbers 5 (split_on CHR '','' ''0'') [] = None"
  by code_simp

lemma answer_6: "lower (strip ''6'') = ''6'' \<and> parse_numbers 5 (split_on CHR '','' ''6'') [] = None"
  by code_simp

lemma prompt_out_of_range:
  "prompt_loop 5 (Line ''0'' # rest) = prompt_loop 5 rest
   \<and> prompt_loop 5 (Line ''6'' # rest) = prompt_loop 5 rest"
  using answer_0 answer_6 by simp

lemma lower_strip_none: "lower (strip ''none'') = ''none''"
  by code_simp

lemma prompt_none_cancels:
  "get_sccm_packages (serial_number self) cat = Inr pkgs \<Longrightarrow> pkgs \<noteq> [] \<Longrightarrow>
     download_sccm_packages self cat net t (Line ''none'' # rest) extract None w = (SelectionCancelled, w)"
  by (simp add: download_sccm_packages_def choose_indices_def lower_strip_none)

lemma cli_six_raises:
  "get_sccm_packages (serial_number self) cat = Inr [p1, p2, p3, p4, p5] \<Longrightarrow>
     download_sccm_packages self cat net t inputs extract (cli_selected_indices (Some [6])) w
       = (Raised IndexError, w)"
  by (simp add: download_sccm_packages_def choose_indices_def cli_selected_indices_def py_index_def)

lemma cli_zero_downloads_last:
  "get_sccm_packages (serial_number self) cat = Inr [p1, p2, p3, p4, p5] \<Longrightarrow>
     download_sccm_packages self cat net t inputs extract (cli_selected_indices (Some [0])) w
       = fetch_and_extract self net t extract [p5] w"
  by (simp add: download_sccm_packages_def choose_indices_def cli_selected_indices_def py_index_def)

text \<open>
  Claim C6, at the input that separates the code from it. With five packages listed,
  \<^verbatim>\<open>--sccm-packages 0\<close> becomes the index \<open>-1\<close>, nothing checks it, and line 583 reads the
  last package: the run goes on with package 5 where the claim wants a validation error.
\<close>

theorem cli_zero_selects_last:
  "cli_selected_indices (Some [0]) = Some [-1]
   \<and> choose_indices 5 (Some [-1]) inputs = Chosen [-1]
   \<and> select_packages [p1, p2, p3, p4, p5] [-1] = Some [p5]"
  by (simp add: cli_selected_indices_def choose_indices_def py_index_def)

section \<open>Properties of the destination file name\<close>

text \<open>
  Where the code and the specification's wording agree: on every URL whose query string
  has no \<^verbatim>\<open>/\<close>.
\<close>

lemma split_on_nonempty: "split_on c s \<noteq> []"
  by (induction s) (auto split: list.splits)

lemma split_on_Cons:
  "split_on c (x # xs) =
     (if x = c then [] # split_on c xs else (x # hd (split_on c xs)) # tl (split_on c xs))"
  using split_on_nonempty[of c xs] by (cases "split_on c xs") simp_all

lemma hd_split_on: "hd (split_on c s) = takeWhile (\<lambda>x. x \<noteq> c) s"
  by (induction s) (simp_all add: split_on_Cons del: split_on.simps(2))

lemma split_on_no_sep: "c \<notin> set s \<Longrightarrow> split_on c s = [s]"
  by (induction s) (auto simp: split_on_Cons simp del: split_on.simps(2))

lemma tl_split_on_sep: "c \<in> set s \<Longrightarrow> tl (split_on c s) \<noteq> []"
proof (induction s)
  case Nil
  then show ?case by simp
next
  case (Cons z zs)
  show ?case
  proof (cases "z = c")
    case True
    then show ?thesis
      using split_on_nonempty[of c zs] by (simp add: split_on_Cons del: split_on.simps(2))
  next
    case False
    with Cons show ?thesis by (simp add: split_on_Cons del: split_on.simps(2))
  qed
qed

lemma last_split_on_Cons:
  "last (split_on c (x # xs)) =
     (if x \<noteq> c \<and> c \<notin> set xs then x # last (split_on c xs) else last (split_on c xs))"
proof (cases "x = c")
  case True
  then show ?thesis
    using split_on_nonempty[of c xs] by (simp add: split_on_Cons del: split_on.simps(2))
next
  case False
  show ?thesis
  proof (cases "c \<in> set xs")
    case True
    from tl_split_on_sep[OF True] have t: "tl (split_on c xs) \<noteq> []" .
    then have "last (tl (split_on c xs)) = last (split_on c xs)"
      by (simp add: last_tl)
    with False True t show ?thesis
      by (simp add: split_on_Cons del: split_on.simps(2))
  next
    case nin: False
    with False show ?thesis
      by (simp add: split_on_no_sep del: split_on.simps(2))
  qed
qed

lemma last_split_on_append:
  "c \<notin> set t \<Longrightarrow> last (split_on c (s @ t)) = last (split_on c s) @ t"
proof (induction s)
  case Nil
  then show ?case by (simp add: split_on_no_sep)
next
  case (Cons x s)
  then show ?case
    by (simp add: last_split_on_Cons del: split_on.simps(2))
qed

lemma set_last_split_on: "x \<in> set (last (split_on c s)) \<Longrightarrow> x \<in> set s"
proof (induction s)
  case Nil
  then show ?case by simp
next
  case (Cons y s)
  then show ?case
    by (cases "y \<noteq> c \<and> c \<notin> set s") (simp_all add: last_split_on_Cons del: split_on.simps(2), blast)
qed

lemma takeWhile_after_dropWhile: "takeWhile P (dropWhile P xs) = []"
  by (induction xs) simp_all

lemma filename_agrees_without_slash_in_query:
  assumes "CHR ''/'' \<notin> set (dropWhile (\<lambda>x. x \<noteq> CHR ''?'') u)"
  shows "url_filename u = final_path_segment u"
proof -
  define p where "p = takeWhile (\<lambda>x. x \<noteq> CHR ''?'') u"
  define q where "q = dropWhile (\<lambda>x. x \<noteq> CHR ''?'') u"
  define seg where "seg = last (split_on CHR ''/'' p)"
  have u: "p @ q = u" by (simp add: p_def q_def)
  have "CHR ''/'' \<notin> set q" using assms by (simp add: q_def)
  then have "last (split_on CHR ''/'' (p @ q)) = seg @ q"
    unfolding seg_def by (rule last_split_on_append)
  then have l: "last (split_on CHR ''/'' u) = seg @ q" by (simp only: u)
  have np: "\<And>x. x \<in> set p \<Longrightarrow> x \<noteq> CHR ''?''"
    unfolding p_def by (rule set_takeWhileD[THEN conjunct2])
  have nq: "\<And>x. x \<in> set seg \<Longrightarrow> x \<noteq> CHR ''?''"
    unfolding seg_def by (rule np, rule set_last_split_on)
  have tq: "takeWhile (\<lambda>x. x \<noteq> CHR ''?'') q = []"
    unfolding q_def by (rule takeWhile_after_dropWhile)
  have "takeWhile (\<lambda>x. x \<noteq> CHR ''?'') (seg @ q) = seg @ takeWhile (\<lambda>x. x \<noteq> CHR ''?'') q"
    by (rule takeWhile_append2) (rule nq)
  with tq have t: "takeWhile (\<lambda>x. x \<noteq> CHR ''?'') (seg @ q) = seg" by simp
  have "url_filename u = unquote (takeWhile (\<lambda>x. x \<noteq> CHR ''?'') (seg @ q))"
    by (simp only: url_filename_def hd_split_on l)
  also have "\<dots> = unquote seg" by (simp only: t)
  also have "\<dots> = final_path_segment u"
    by (simp only: final_path_segment_def hd_split_on seg_def p_def)
  finally show ?thesis .
qed

text \<open>
  Claim C3, at the input that separates the code from it. The code cuts the URL at its last
  \<^verbatim>\<open>/\<close> before it removes the query string, so a \<^verbatim>\<open>/\<close> inside the query string makes the
  file name a piece of the query, where the final path segment is \<^verbatim>\<open>file.exe\<close>.
\<close>

theorem slash_in_query_filename:
  "url_filename ''https://host/path/file.exe?sig=a/b'' = ''b''
   \<and> final_path_segment ''https://host/path/file.exe?sig=a/b'' = ''file.exe''"
  by code_simp

section \<open>Properties of the catalog resolver\<close>

lemma v4_files_truthy:
  "v4_files fs acc = Some fis \<Longrightarrow> \<forall>f \<in> set acc. truthy (url f) \<Longrightarrow> \<forall>f \<in> set fis. truthy (url f)"
proof (induction fs arbitrary: acc)
  case Nil
  then show ?case by simp
next
  case (Cons f fs)
  obtain fi where fi: "v4_file f = Some fi"
    and rest: "v4_files fs (if truthy (url fi) then acc @ [fi] else acc) = Some fis"
    using Cons.prems(1) by (cases "v4_file f") simp_all
  have "\<forall>x \<in> set (if truthy (url fi) then acc @ [fi] else acc). truthy (url x)"
    using Cons.prems(2) by simp
  from Cons.IH[OF rest this] show ?case .
qed

lemma v4_item_files:
  "v4_item item = Some d \<Longrightarrow> \<exists>fs. v4_files fs [] = Some (files d)"
  unfolding v4_item_def
  by (auto simp: bind_eq_Some_conv)

lemma v4_item_truthy: "v4_item item = Some d \<Longrightarrow> \<forall>f \<in> set (files d). truthy (url f)"
proof -
  assume "v4_item item = Some d"
  then obtain fs where "v4_files fs [] = Some (files d)"
    using v4_item_files by blast
  then show ?thesis
    by (rule v4_files_truthy) simp
qed

lemma v4_items_retained:
  "v4_items items acc = (drivers, raised) \<Longrightarrow> \<forall>d \<in> set acc. retained d \<Longrightarrow> \<forall>d \<in> set drivers. retained d"
proof (induction items arbitrary: acc)
  case Nil
  then show ?case by simp
next
  case (Cons item items)
  show ?case
  proof (cases "v4_item item")
    case None
    with Cons.prems show ?thesis by simp
  next
    case (Some d)
    have inv: "\<forall>x \<in> set (if files d \<noteq> [] then acc @ [d] else acc). retained x"
      using Cons.prems(2) v4_item_truthy[OF Some] by (simp add: retained_def)
    have run: "v4_items items (if files d \<noteq> [] then acc @ [d] else acc) = (drivers, raised)"
      using Cons.prems(1) Some by simp
    from Cons.IH[OF run inv] show ?thesis .
  qed
qed

lemma primary_listing_cases:
  "primary_listing resp = (drivers, returned) \<Longrightarrow>
     drivers = [] \<or> (\<exists>items raised. v4_items items [] = (drivers, raised))"
  unfolding primary_listing_def
  by (simp split: http.splits if_splits option.splits prod.splits) blast+

lemma primary_listing_retained:
  assumes "primary_listing resp = (drivers, returned)"
  shows "\<forall>d \<in> set drivers. retained d"
proof -
  from primary_listing_cases[OF assms] show ?thesis
  proof
    assume "drivers = []"
    then show ?thesis by simp
  next
    assume "\<exists>items raised. v4_items items [] = (drivers, raised)"
    then obtain items raised where "v4_items items [] = (drivers, raised)" by blast
    then show ?thesis by (rule v4_items_retained) simp
  qed
qed

lemma v2_item_retained: "v2_item item = Some (Some d) \<Longrightarrow> retained d"
  unfolding v2_item_def
  by (auto simp: bind_eq_Some_conv retained_def split: if_splits json.splits)

lemma v2_items_retained:
  "v2_items items acc = (drivers, raised) \<Longrightarrow> \<forall>d \<in> set acc. retained d \<Longrightarrow> \<forall>d \<in> set drivers. retained d"
proof (induction items arbitrary: acc)
  case Nil
  then show ?case by simp
next
  case (Cons item items)
  show ?case
  proof (cases "v2_item item")
    case None
    with Cons.prems show ?thesis by simp
  next
    case (Some r)
    show ?thesis
    proof (cases r)
      case None
      with Some Cons.prems(1) have "v2_items items acc = (drivers, raised)" by simp
      from Cons.IH[OF this Cons.prems(2)] show ?thesis .
    next
      case (Some d)
      with \<open>v2_item item = Some r\<close> have it: "v2_item item = Some (Some d)" by simp
      then have run: "v2_items items (acc @ [d]) = (drivers, raised)"
        using Cons.prems(1) by simp
      have inv: "\<forall>x \<in> set (acc @ [d]). retained x"
        using Cons.prems(2) v2_item_retained[OF it] by simp
      from Cons.IH[OF run inv] show ?thesis .
    qed
  qed
qed

lemma secondary_listing_cases:
  "secondary_listing resp acc = acc \<or> (\<exists>items. secondary_listing resp acc = fst (v2_items items acc))"
  unfolding secondary_listing_def
  by (simp split: http.splits if_splits option.splits) blast

lemma secondary_listing_retained:
  assumes "\<forall>d \<in> set acc. retained d"
  shows "\<forall>d \<in> set (secondary_listing resp acc). retained d"
proof -
  from secondary_listing_cases[of resp acc] show ?thesis
  proof
    assume "secondary_listing resp acc = acc"
    with assms show ?thesis by simp
  next
    assume "\<exists>items. secondary_listing resp acc = fst (v2_items items acc)"
    then obtain items where eq: "secondary_listing resp acc = fst (v2_items items acc)" by blast
    have "v2_items items acc = (fst (v2_items items acc), snd (v2_items items acc))" by simp
    from v2_items_retained[OF this assms] eq show ?thesis by simp
  qed
qed

lemma get_drivers_list_cases:
  "get_drivers_list serial cat = Inr drivers \<Longrightarrow>
     \<exists>found returned. primary_listing (drivers_v4 cat) = (found, returned)
        \<and> (drivers = found \<or> drivers = secondary_listing (drivers_v2 cat) found)"
  unfolding get_drivers_list_def
  by (simp split: option.splits prod.splits if_splits)

lemma sample_listing: "get_drivers_list ''PF1234AB'' sample_catalog = Inr [bios_driver, audio_driver]"
  by code_simp

text \<open>
  Claim C9. Whatever the two listing requests answer, every record \<^verbatim>\<open>get_drivers_list\<close>
  returns has at least one file, and each of its files has a URL that passed the truth
  test of line 145 or 175: it is not the empty string. Records left without files are
  not in the list.
\<close>

theorem listed_drivers_have_files:
  assumes "get_drivers_list serial cat = Inr drivers" and "d \<in> set drivers"
  shows "files d \<noteq> [] \<and> (\<forall>f \<in> set (files d). truthy (url f) \<and> url f \<noteq> JStr [])"
proof -
  obtain found returned where p: "primary_listing (drivers_v4 cat) = (found, returned)"
    and d: "drivers = found \<or> drivers = secondary_listing (drivers_v2 cat) found"
    using get_drivers_list_cases[OF assms(1)] by blast
  have f: "\<forall>x \<in> set found. retained x"
    using p by (rule primary_listing_retained)
  have "\<forall>x \<in> set drivers. retained x"
    using d f secondary_listing_retained[OF f] by auto
  with assms(2) have "retained d" by blast
  then show ?thesis
    by (auto simp: retained_def truthy_def)
qed

theorem listed_drivers_have_files_witness:
  "get_drivers_list ''PF1234AB'' sample_catalog = Inr [bios_driver, audio_driver]
   \<and> bios_driver \<in> set [bios_driver, audio_driver]
   \<and> files bios_driver = [bios_file]
   \<and> truthy (url bios_file) \<and> url bios_file \<noteq> JStr []"
proof -
  have m: "bios_driver \<in> set [bios_driver, audio_driver]" by simp
  have f: "files bios_driver = [bios_file]" by (simp add: bios_driver_def)
  from listed_drivers_have_files[OF sample_listing m] sample_listing m f show ?thesis by simp
qed

section \<open>Properties of the transfer engine\<close>

lemma path_exists_cong: "map_of fs = map_of fs' \<Longrightarrow> path_exists fs p = path_exists fs' p"
  by (simp add: path_exists_def is_dir_def)

lemma not_exists_None: "\<not> path_exists fs p \<Longrightarrow> map_of fs p = None"
  by (auto simp: path_exists_def)

lemma file_exists: "map_of fs p = Some n \<Longrightarrow> path_exists fs p"
  by (simp add: path_exists_def)

lemma open_w_map: "open_w fs p = Some fs1 \<Longrightarrow> map_of fs1 = (map_of fs)(p \<mapsto> File (Bytes []))"
  by (auto simp: open_w_def update_conv' split: if_splits)

lemma fs_write_map:
  "map_of fs p = Some (File (Bytes old)) \<Longrightarrow>
     map_of (fs_write fs p b) = (map_of fs)(p \<mapsto> File (Bytes (old @ b)))"
  by (simp add: fs_write_def update_conv')

lemma fs_writes_map:
  "map_of fs p = Some (File (Bytes old)) \<Longrightarrow>
     map_of (foldl (\<lambda>f b. fs_write f p b) fs bufs) = (map_of fs)(p \<mapsto> File (Bytes (old @ concat bufs)))"
proof (induction bufs arbitrary: fs old)
  case Nil
  then show ?case by (simp add: fun_upd_idem)
next
  case (Cons b bufs)
  have "map_of (fs_write fs p b) p = Some (File (Bytes (old @ b)))"
    using Cons.prems by (simp add: fs_write_map)
  from Cons.IH[OF this] show ?case
    using Cons.prems by (simp add: fs_write_map fun_eq_iff)
qed

lemma unlink_map: "unlink fs p = Some fs' \<Longrightarrow> map_of fs' = (map_of fs)(p := None)"
  by (auto simp: unlink_def delete_conv' split: option.splits node.splits)

lemma unlink_file: "map_of fs p = Some (File c) \<Longrightarrow> \<exists>fs'. unlink fs p = Some fs'"
  by (simp add: unlink_def)

lemma try_download_cases:
  assumes "try_download net u p fs = (fs', res)"
  shows "(fs' = fs \<and> res \<noteq> None)
       \<or> (\<exists>r ts. net u = Response r \<and> total_size_of r = Some ts \<and> open_w fs p \<noteq> None
             \<and> map_of fs' = (map_of fs)(p \<mapsto> File (Bytes (concat (fst (body_writes ts r)))))
             \<and> (res = None) = (\<not> snd (body_writes ts r)))"
proof (cases "net u")
  case (RequestError msg)
  with assms show ?thesis by (auto simp: try_download_def)
next
  case (Response r)
  show ?thesis
  proof (cases "total_size_of r")
    case None
    with Response assms show ?thesis by (auto simp: try_download_def)
  next
    case (Some ts)
    show ?thesis
    proof (cases "open_w fs p")
      case None
      with Some Response assms show ?thesis by (auto simp: try_download_def)
    next
      case (Some fs1)
      obtain bufs raised where bw: "body_writes ts r = (bufs, raised)"
        by (cases "body_writes ts r")
      have m1: "map_of fs1 p = Some (File (Bytes []))"
        using open_w_map[OF Some] by simp
      have "fs' = foldl (\<lambda>f b. fs_write f p b) fs1 bufs" and r: "res = (if raised then Some ''connection broken'' else None)"
        using assms Response \<open>total_size_of r = Some ts\<close> Some bw by (simp_all add: try_download_def)
      then have "map_of fs' = (map_of fs)(p \<mapsto> File (Bytes (concat bufs)))"
        using fs_writes_map[OF m1, of bufs] open_w_map[OF Some] by simp
      with Response \<open>total_size_of r = Some ts\<close> Some bw r show ?thesis by auto
    qed
  qed
qed

lemma download_file_skip:
  "url fi = JStr u \<Longrightarrow> path_exists (disk w) (pjoin dir (url_filename u)) \<Longrightarrow>
     download_file net fi dir w = (Inr (True, url_filename u, Some ''Already exists''), w)"
  by (simp add: download_file_def)

lemma cleanup_after_try:
  assumes "\<not> path_exists fs p" and "try_download net u p fs = (fs1, Some msg)"
  shows "\<exists>fs2. cleanup_partial fs1 p = Some fs2 \<and> map_of fs2 = map_of fs"
proof -
  from try_download_cases[OF assms(2)]
  consider "fs1 = fs" | c where "map_of fs1 = (map_of fs)(p \<mapsto> File (Bytes c))"
    by blast
  then show ?thesis
  proof cases
    case 1
    with assms(1) show ?thesis by (simp add: cleanup_partial_def)
  next
    case 2
    then have f: "map_of fs1 p = Some (File (Bytes c))" by simp
    then obtain fs2 where u: "unlink fs1 p = Some fs2"
      using unlink_file by blast
    have "map_of fs2 = map_of fs"
      using unlink_map[OF u] 2 not_exists_None[OF assms(1)] by (simp add: fun_eq_iff)
    moreover have "cleanup_partial fs1 p = Some fs2"
      using u file_exists[OF f] by (simp add: cleanup_partial_def)
    ultimately show ?thesis by blast
  qed
qed

lemma download_file_fetch:
  assumes u: "url fi = JStr u" and n: "\<not> path_exists (disk w) (pjoin dir (url_filename u))"
    and d: "download_file net fi dir w = (r, w')"
  shows "requests w' = requests w @ [u] \<and> invocations w' = invocations w \<and>
     ((r = Inr (True, url_filename u, None) \<and>
        (\<exists>rsp ts. net u = Response rsp \<and> total_size_of rsp = Some ts \<and> \<not> snd (body_writes ts rsp)
           \<and> map_of (disk w') = (map_of (disk w))(pjoin dir (url_filename u) \<mapsto>
                 File (Bytes (concat (fst (body_writes ts rsp)))))))
      \<or> ((\<exists>m. r = Inr (False, url_filename u, Some m)) \<and> map_of (disk w') = map_of (disk w)))"
proof -
  let ?p = "pjoin dir (url_filename u)"
  obtain fs1 res where t: "try_download net u ?p (disk w) = (fs1, res)"
    by (cases "try_download net u ?p (disk w)")
  show ?thesis
  proof (cases res)
    case None
    with t u n d have r: "r = Inr (True, url_filename u, None)"
      and w: "w' = w\<lparr>requests := requests w @ [u], disk := fs1\<rparr>"
      by (auto simp: download_file_def)
    from try_download_cases[OF t] None
    obtain rsp ts where "net u = Response rsp" "total_size_of rsp = Some ts"
      "\<not> snd (body_writes ts rsp)"
      "map_of fs1 = (map_of (disk w))(?p \<mapsto> File (Bytes (concat (fst (body_writes ts rsp)))))"
      by auto
    with r w show ?thesis by auto
  next
    case (Some msg)
    with t have t': "try_download net u ?p (disk w) = (fs1, Some msg)" by simp
    from cleanup_after_try[OF n t'] obtain fs2 where
      c: "cleanup_partial fs1 ?p = Some fs2" and m: "map_of fs2 = map_of (disk w)" by blast
    from t' u n d c have "r = Inr (False, url_filename u, Some msg)"
      and "w' = w\<lparr>requests := requests w @ [u], disk := fs2\<rparr>"
      by (auto simp: download_file_def)
    with m show ?thesis by auto
  qed
qed

lemma download_file_no_url:
  "task_dest (fi, dir, ti) = None \<Longrightarrow> download_file net fi dir w = (Inl AttributeError, w)"
  by (cases "url fi") (simp_all add: task_dest_def download_file_def)

lemma task_dest_Some:
  "task_dest (fi, dir, ti) = Some p \<Longrightarrow> \<exists>u. url fi = JStr u \<and> p = pjoin dir (url_filename u)"
  by (cases "url fi") (simp_all add: task_dest_def)

lemma download_file_keeps_node:
  assumes "download_file net fi dir w = (r, w')" and "map_of (disk w) q = Some n"
  shows "map_of (disk w') q = Some n"
proof (cases "task_dest (fi, dir, undefined)")
  case None
  with assms download_file_no_url[OF None] show ?thesis by simp
next
  case (Some p)
  then obtain u where u: "url fi = JStr u" and p: "p = pjoin dir (url_filename u)"
    using task_dest_Some by blast
  show ?thesis
  proof (cases "path_exists (disk w) p")
    case True
    with assms download_file_skip[OF u, of w dir net] p show ?thesis by simp
  next
    case False
    then have "q \<noteq> p" using assms(2) by (auto simp: path_exists_def)
    with download_file_fetch[OF u False[unfolded p] assms(1)] assms(2) p show ?thesis by auto
  qed
qed





















text \<open>
  The loop of \<^verbatim>\<open>download_sccm_packages\<close> treats a failed download the same way (lines
  630-633): what was written is unlinked, the path is not among the downloaded files, and
  the loop goes on with the next file.
\<close>

lemma try_download_sccm_cases:
  assumes "try_download_sccm net u p fs = (fs', res)"
  shows "fs' = fs \<or> (\<exists>c. map_of fs' = (map_of fs)(p \<mapsto> File (Bytes c)))"
proof (cases "net u")
  case (RequestError msg)
  with assms show ?thesis by (auto simp: try_download_sccm_def)
next
  case (Response r)
  show ?thesis
  proof (cases "total_size_of r")
    case None
    with Response assms show ?thesis by (auto simp: try_download_sccm_def)
  next
    case (Some ts)
    show ?thesis
    proof (cases "open_w fs p")
      case None
      with Some Response assms show ?thesis by (auto simp: try_download_sccm_def)
    next
      case (Some fs1)
      obtain bufs raised where sw: "stream_writes r = (bufs, raised)"
        by (cases "stream_writes r")
      have m1: "map_of fs1 p = Some (File (Bytes []))"
        using open_w_map[OF Some] by simp
      have "fs' = foldl (\<lambda>f b. fs_write f p b) fs1 bufs"
        using assms Response \<open>total_size_of r = Some ts\<close> Some sw by (simp add: try_download_sccm_def)
      then have "map_of fs' = (map_of fs)(p \<mapsto> File (Bytes (concat bufs)))"
        using fs_writes_map[OF m1, of bufs] open_w_map[OF Some] by simp
      then show ?thesis by blast
    qed
  qed
qed

lemma sccm_failed_download_continues:
  assumes "url fi = JStr u"
    and "\<not> path_exists (disk w) (pjoin d (url_filename u))"
    and "try_download_sccm net u (pjoin d (url_filename u)) (disk w) = (fs, Some msg)"
  shows "\<exists>w1. sccm_download net d (fi # rest) downloaded w = sccm_download net d rest downloaded w1
     \<and> \<not> path_exists (disk w1) (pjoin d (url_filename u))
     \<and> requests w1 = requests w @ [u]"
proof -
  let ?p = "pjoin d (url_filename u)"
  from try_download_sccm_cases[OF assms(3)]
  consider "fs = disk w" | c where "map_of fs = (map_of (disk w))(?p \<mapsto> File (Bytes c))"
    by blast
  then obtain fs2 where c: "cleanup_partial fs ?p = Some fs2" and m: "map_of fs2 = map_of (disk w)"
  proof cases
    case 1
    with assms(2) have "cleanup_partial fs ?p = Some fs" by (simp add: cleanup_partial_def)
    with 1 that show ?thesis by simp
  next
    case 2
    then have f: "map_of fs ?p = Some (File (Bytes c))" by simp
    then obtain fs2 where ul: "unlink fs ?p = Some fs2"
      using unlink_file by blast
    have "map_of fs2 = map_of (disk w)"
      using unlink_map[OF ul] 2 not_exists_None[OF assms(2)] by (simp add: fun_eq_iff)
    moreover have "cleanup_partial fs ?p = Some fs2"
      using ul file_exists[OF f] by (simp add: cleanup_partial_def)
    ultimately show ?thesis using that by blast
  qed
  let ?w1 = "w\<lparr>requests := requests w @ [u], disk := fs2\<rparr>"
  have "sccm_download net d (fi # rest) downloaded w = sccm_download net d rest downloaded ?w1"
    using assms c by simp
  moreover have "\<not> path_exists (disk ?w1) ?p"
    using path_exists_cong[OF m] assms(2) by simp
  ultimately show ?thesis by (intro exI[of _ ?w1]) simp
qed

lemma concat_chunks_of: "0 < n \<Longrightarrow> concat (chunks_of n xs) = xs"
proof (induction n xs rule: chunks_of.induct)
  case (1 n xs)
  show ?case
  proof (cases "xs = []")
    case True
    then show ?thesis by (simp add: chunks_of.simps)
  next
    case False
    with 1 have "concat (chunks_of n (drop n xs)) = drop n xs" by simp
    with False 1(2) show ?thesis by (subst chunks_of.simps) simp
  qed
qed

lemma length_chunks_of: "c \<in> set (chunks_of n xs) \<Longrightarrow> length c \<le> n"
proof (induction n xs rule: chunks_of.induct)
  case (1 n xs)
  show ?case
  proof (cases "n = 0 \<or> xs = []")
    case True
    with 1(2) show ?thesis by (simp add: chunks_of.simps)
  next
    case False
    with 1(2) have "c = take n xs \<or> c \<in> set (chunks_of n (drop n xs))"
      by (subst (asm) chunks_of.simps) auto
    with 1(1) False show ?thesis by auto
  qed
qed

lemma concat_filter_nonempty: "concat (filter (\<lambda>c. c \<noteq> []) xs) = concat xs"
  by (induction xs) simp_all

lemma received_unbroken: "\<not> broken r \<Longrightarrow> received r = body r"
  by (auto simp: broken_def received_def split: option.splits)

lemma body_writes_unbroken: "\<not> snd (body_writes ts r) \<Longrightarrow> \<not> broken r"
  by (auto simp: body_writes_def iter_content_def content_of_def split: if_splits)

lemma body_writes_concat:
  assumes "\<not> snd (body_writes ts r)"
  shows "concat (fst (body_writes ts r)) = body r"
proof -
  have nb: "\<not> broken r" using assms by (rule body_writes_unbroken)
  show ?thesis
  proof (cases "ts = 0")
    case True
    with nb show ?thesis by (simp add: body_writes_def content_of_def)
  next
    case False
    with nb show ?thesis
      by (simp add: body_writes_def iter_content_def concat_filter_nonempty concat_chunks_of
          received_unbroken)
  qed
qed

lemma body_writes_bounded:
  "ts \<noteq> 0 \<Longrightarrow> b \<in> set (fst (body_writes ts r)) \<Longrightarrow> 0 < length b \<and> length b \<le> 8192"
  by (auto simp: body_writes_def iter_content_def dest: length_chunks_of)

lemma body_writes_whole:
  "\<not> snd (body_writes 0 r) \<Longrightarrow> fst (body_writes 0 r) = [body r]"
  by (auto simp: body_writes_def content_of_def split: if_splits)

lemma stream_writes_bounded:
  "b \<in> set (fst (stream_writes r)) \<Longrightarrow> 0 < length b \<and> length b \<le> 8192"
  by (auto simp: stream_writes_def iter_content_def dest: length_chunks_of)

text \<open>
  Claim C4, as the code has it. When \<^verbatim>\<open>download_file\<close> completes, the destination file
  holds the whole body, whether the length was declared or not. With a declared, non-zero
  length every buffer passed to \<^verbatim>\<open>f.write\<close> is a non-empty chunk of at most 8192 bytes;
  with an absent or zero length there is one write, of the whole body. The loop of
  \<^verbatim>\<open>download_sccm_packages\<close> writes chunks of at most 8192 bytes in both cases.
\<close>

theorem completed_file_holds_body:
  assumes "url fi = JStr u"
    and "download_file net fi dir w = (Inr (True, filename, None), w')"
    and "net u = Response r"
    and "total_size_of r = Some ts"
  shows "map_of (disk w') (pjoin dir (url_filename u)) = Some (File (Bytes (body r)))
     \<and> concat (fst (body_writes ts r)) = body r
     \<and> (ts \<noteq> 0 \<longrightarrow> (\<forall>b \<in> set (fst (body_writes ts r)). 0 < length b \<and> length b \<le> 8192))
     \<and> (ts = 0 \<longrightarrow> fst (body_writes ts r) = [body r])
     \<and> (\<forall>b \<in> set (fst (stream_writes r)). 0 < length b \<and> length b \<le> 8192)"
proof -
  let ?p = "pjoin dir (url_filename u)"
  have n: "\<not> path_exists (disk w) ?p"
  proof
    assume "path_exists (disk w) ?p"
    from download_file_skip[OF assms(1) this, of net] assms(2) show False by simp
  qed
  from download_file_fetch[OF assms(1) n assms(2)] assms(3,4)
  have ok: "\<not> snd (body_writes ts r)"
    and m: "map_of (disk w') = (map_of (disk w))(?p \<mapsto> File (Bytes (concat (fst (body_writes ts r)))))"
    by auto
  have c: "concat (fst (body_writes ts r)) = body r"
    using ok by (rule body_writes_concat)
  from m c have "map_of (disk w') ?p = Some (File (Bytes (body r)))" by simp
  moreover have "ts = 0 \<longrightarrow> fst (body_writes ts r) = [body r]"
    using ok body_writes_whole by auto
  ultimately show ?thesis
    using c body_writes_bounded stream_writes_bounded by blast
qed

lemma sample_download:
  "download_file net_ok bios_file [''out'', ''BIOS''] sample_world =
     (Inr (True, ''bios_1.2.exe'', None),
      \<lparr>disk = [([''out''], Dir), ([''out'', ''BIOS''], Dir),
               ([''out'', ''BIOS'', ''bios_1.2.exe''], File (Bytes ''MZ''))],
       requests = [''https://host/path/bios_1.2.exe?sig=abc''], invocations = []\<rparr>)"
  by code_simp

lemma sample_url: "url bios_file = JStr ''https://host/path/bios_1.2.exe?sig=abc''"
  by (simp add: bios_file_def)

lemma sample_response: "net_ok ''https://host/path/bios_1.2.exe?sig=abc'' = Response small_response"
  by (simp add: net_ok_def small_response_def)

lemma sample_total_size: "total_size_of small_response = Some 2"
  by code_simp

lemma sample_writes: "fst (body_writes 2 small_response) = [''MZ'']"
  by code_simp

theorem completed_file_holds_body_witness:
  "url bios_file = JStr ''https://host/path/bios_1.2.exe?sig=abc''
   \<and> download_file net_ok bios_file [''out'', ''BIOS''] sample_world =
     (Inr (True, ''bios_1.2.exe'', None),
      \<lparr>disk = [([''out''], Dir), ([''out'', ''BIOS''], Dir),
               ([''out'', ''BIOS'', ''bios_1.2.exe''], File (Bytes ''MZ''))],
       requests = [''https://host/path/bios_1.2.exe?sig=abc''], invocations = []\<rparr>)
   \<and> net_ok ''https://host/path/bios_1.2.exe?sig=abc'' = Response small_response
   \<and> total_size_of small_response = Some 2
   \<and> fst (body_writes 2 small_response) = [''MZ'']
   \<and> concat (fst (body_writes 2 small_response)) = body small_response"
  using completed_file_holds_body[OF sample_url sample_download sample_response sample_total_size]
    sample_url sample_download sample_response sample_total_size sample_writes
  by simp

text \<open>
  With no declared length the body is not written through the fixed-size buffer: here
  the single write has 8193 bytes, the size of the whole body.
\<close>

theorem unknown_length_single_write:
  "total_size_of big_response = Some 0
   \<and> snd (body_writes 0 big_response) = False
   \<and> map length (fst (body_writes 0 big_response)) = [8193]"
  by (simp add: total_size_of_def big_response_def body_writes_def content_of_def broken_def
      received_def)

section \<open>Properties of the manifest\<close>

lemma mkdir_exist_ok_keeps:
  "mkdir_exist_ok fs p = Some fs' \<Longrightarrow> map_of fs q = Some n \<Longrightarrow> map_of fs' q = Some n"
  by (auto simp: mkdir_exist_ok_def update_conv' split: if_splits)

lemma prepare_tasks_keeps:
  "prepare_tasks out ds fs tasks = (r, fs') \<Longrightarrow> map_of fs q = Some n \<Longrightarrow> map_of fs' q = Some n"
proof (induction ds arbitrary: fs tasks)
  case Nil
  then show ?case by simp
next
  case (Cons d ds)
  show ?case
  proof (cases "category d")
    case (JStr c)
    let ?dir = "pjoin out (replace_char (CHR 0x5C) CHR ''-'' (replace_char CHR ''/'' CHR ''-'' c))"
    show ?thesis
    proof (cases "mkdir_exist_ok fs ?dir")
      case None
      with JStr Cons.prems show ?thesis by simp
    next
      case (Some fs1)
      from mkdir_exist_ok_keeps[OF Some Cons.prems(2)] have k: "map_of fs1 q = Some n" .
      from Cons.prems(1) JStr Some
      have "prepare_tasks out ds fs1 (tasks @ map (\<lambda>fi. (fi, ?dir, title d)) (files d)) = (r, fs')"
        by simp
      from Cons.IH[OF this k] show ?thesis .
    qed
  qed (use Cons.prems in simp_all)
qed

lemma run_tasks_keeps_node:
  "run_tasks net tasks w = (outs, w') \<Longrightarrow> map_of (disk w) q = Some n \<Longrightarrow> map_of (disk w') q = Some n"
proof (induction tasks arbitrary: w outs)
  case Nil
  then show ?case by simp
next
  case (Cons t ts)
  obtain r w1 where d: "download_file net (fst t) (fst (snd t)) w = (r, w1)"
    by (cases "download_file net (fst t) (fst (snd t)) w")
  obtain os w2 where rest: "run_tasks net ts w1 = (os, w2)"
    by (cases "run_tasks net ts w1")
  from Cons.prems(1) d rest have "w' = w2" by simp
  with rest have rest': "run_tasks net ts w1 = (os, w')" by simp
  from Cons.IH[OF rest' download_file_keeps_node[OF d Cons.prems(2)]] show ?case .
qed

lemma save_manifest_content:
  assumes "save_manifest self pinfo now drivers fs = (True, fs1)"
  shows "map_of fs1 (metadata_path self)
           = Some (File (Document (manifest (serial_number self) pinfo drivers now)))"
proof -
  obtain fa where a: "mkdir_parents fs (output_dir self) = Some fa"
    using assms by (cases "mkdir_parents fs (output_dir self)") (simp_all add: save_manifest_def)
  obtain fb where b: "open_w fa (metadata_path self) = Some fb"
    using assms a by (cases "open_w fa (metadata_path self)") (simp_all add: save_manifest_def)
  from assms a b have c: "fs1 = fs_dump fb (metadata_path self)
      (manifest (serial_number self) pinfo drivers now)"
    by (simp add: save_manifest_def)
  have "map_of fb (metadata_path self) = Some (File (Bytes []))"
    using open_w_map[OF b] by simp
  with c show ?thesis by (simp add: fs_dump_def update_conv')
qed

lemma filter_categories_eq:
  "filter_categories cl ds = Some kept \<Longrightarrow>
     kept = filter (\<lambda>d. case category d of JStr c \<Rightarrow> lower c \<in> set cl | _ \<Rightarrow> False) ds"
proof (induction ds arbitrary: kept)
  case Nil
  then show ?case by simp
next
  case (Cons d ds)
  then show ?case
    by (cases "category d") (auto split: option.splits)
qed

lemma select_drivers_eq:
  "select_drivers categories fetched = Some drivers \<Longrightarrow> drivers = kept_drivers categories fetched"
  unfolding select_drivers_def kept_drivers_def in_categories_def
  by (auto split: option.splits if_splits dest: filter_categories_eq)

lemma metadata_path_fixed: "metadata_path self = output_dir self @ [''driver_manifest.json'']"
  by (simp add: metadata_path_def pjoin_def is_absolute_def path_parts_def)

text \<open>
  Claim C5, as the code has it. A run that reaches its transfers writes one document to
  \<^verbatim>\<open>driver_manifest.json\<close> in the output directory, before the first task runs: the
  serial number, the product descriptor, the drivers kept by the category filter (all of
  them when no filter is given) and the time. The transfers leave it as written: it is
  still the content of the file when the run ends.
\<close>

theorem manifest_holds_selected_drivers:
  assumes "download_all_drivers self cat net now categories w = (Inr outs, w')"
    and "get_drivers_list (serial_number self) cat = Inr fetched"
    and "fetched \<noteq> []"
  shows "\<exists>pinfo fs1. product_lookup cat = Some pinfo
     \<and> metadata_path self = output_dir self @ [''driver_manifest.json'']
     \<and> save_manifest self pinfo now (kept_drivers categories fetched) (disk w) = (True, fs1)
     \<and> map_of fs1 (metadata_path self)
         = Some (File (Document (manifest (serial_number self) pinfo (kept_drivers categories fetched) now)))
     \<and> map_of (disk w') (metadata_path self)
         = Some (File (Document (manifest (serial_number self) pinfo (kept_drivers categories fetched) now)))"
proof -
  let ?run = "download_all_drivers self cat net now categories w"
  obtain drivers where s: "select_drivers categories fetched = Some drivers"
    using assms by (cases "select_drivers categories fetched") (simp_all add: download_all_drivers_def)
  have k: "drivers = kept_drivers categories fetched" using s by (rule select_drivers_eq)
  obtain pinfo where p: "product_lookup cat = Some pinfo"
    using assms s by (cases "product_lookup cat") (simp_all add: download_all_drivers_def)
  obtain ok fs1 where m0: "save_manifest self pinfo now drivers (disk w) = (ok, fs1)"
    by (cases "save_manifest self pinfo now drivers (disk w)")
  have ok using assms s p m0 by (cases ok) (simp_all add: download_all_drivers_def)
  with m0 have m: "save_manifest self pinfo now drivers (disk w) = (True, fs1)" by simp
  obtain pr fs2 where t: "prepare_tasks (output_dir self) drivers fs1 [] = (pr, fs2)"
    by (cases "prepare_tasks (output_dir self) drivers fs1 []")
  obtain tasks where pr: "pr = Inr tasks"
    using assms s p m t by (cases pr) (simp_all add: download_all_drivers_def)
  obtain os w2 where r: "run_tasks net tasks (w\<lparr>disk := fs2\<rparr>) = (os, w2)"
    by (cases "run_tasks net tasks (w\<lparr>disk := fs2\<rparr>)")
  from assms s p m t pr r have w2: "w2 = w'"
    by (simp add: download_all_drivers_def split: if_splits)
  let ?doc = "File (Document (manifest (serial_number self) pinfo drivers now))"
  have c1: "map_of fs1 (metadata_path self) = Some ?doc"
    using m by (rule save_manifest_content)
  have c2: "map_of fs2 (metadata_path self) = Some ?doc"
    using prepare_tasks_keeps[OF t c1] .
  have "map_of (disk w2) (metadata_path self) = Some ?doc"
    using run_tasks_keeps_node[OF r] c2 by simp
  with w2 c1 m p k metadata_path_fixed show ?thesis by blast
qed

lemma sample_filtered_run:
  "download_all_drivers sample_downloader sample_catalog net_down ''2024-05-01 10:00:00''
     (Some [''bios'']) empty_world = (Inr [Failed], filtered_world)"
  by code_simp

lemma sample_fetched:
  "get_drivers_list (serial_number sample_downloader) sample_catalog = Inr [bios_driver, audio_driver]"
  by code_simp

lemma sample_kept: "kept_drivers (Some [''bios'']) [bios_driver, audio_driver] = [bios_driver]"
  by code_simp

lemma sample_manifest_path: "metadata_path sample_downloader = [''out'', ''driver_manifest.json'']"
  by code_simp

lemma sample_serial: "serial_number sample_downloader = ''PF1234AB''"
  by code_simp

lemma sample_product_lookup: "product_lookup sample_catalog = Some sample_product"
  by (simp add: sample_catalog_def)

theorem manifest_holds_selected_drivers_witness:
  "download_all_drivers sample_downloader sample_catalog net_down ''2024-05-01 10:00:00''
     (Some [''bios'']) empty_world = (Inr [Failed], filtered_world)
   \<and> get_drivers_list (serial_number sample_downloader) sample_catalog = Inr [bios_driver, audio_driver]
   \<and> [bios_driver, audio_driver] \<noteq> []
   \<and> map_of (disk filtered_world) [''out'', ''driver_manifest.json'']
       = Some (File (Document (manifest ''PF1234AB'' sample_product [bios_driver] ''2024-05-01 10:00:00'')))"
proof -
  have ne: "[bios_driver, audio_driver] \<noteq> []" by simp
  from manifest_holds_selected_drivers[OF sample_filtered_run sample_fetched ne]
    sample_filtered_run sample_fetched ne
  show ?thesis
    by (auto simp: sample_kept sample_manifest_path sample_serial sample_product_lookup)
qed

text \<open>
  The list in the manifest is the filtered one: two drivers are fetched, the filter keeps
  one, and the document lists that one only.
\<close>

theorem manifest_lists_filtered_drivers:
  "get_drivers_list ''PF1234AB'' sample_catalog = Inr [bios_driver, audio_driver]
   \<and> map_of (disk (snd (download_all_drivers sample_downloader sample_catalog net_down
          ''2024-05-01 10:00:00'' (Some [''bios'']) empty_world))) [''out'', ''driver_manifest.json'']
       = Some (File (Document (manifest ''PF1234AB'' sample_product [bios_driver] ''2024-05-01 10:00:00'')))
   \<and> manifest ''PF1234AB'' sample_product [bios_driver] ''2024-05-01 10:00:00''
       \<noteq> manifest ''PF1234AB'' sample_product [bios_driver, audio_driver] ''2024-05-01 10:00:00''"
  by code_simp

section \<open>Properties of the extraction pipeline\<close>

text \<open>
  Claim C7. When the extraction directory of a downloaded file exists and has an entry,
  the extraction step returns without touching the state: no tool is run and nothing is
  logged. The state being the same, the step does nothing again when it is repeated.
\<close>

theorem populated_directory_is_skipped:
  assumes "path_exists (disk w) (pjoin sccm_dir (stem filepath))"
    and "iterdir (disk w) (pjoin sccm_dir (stem filepath)) = Some entries"
    and "entries \<noteq> []"
  shows "extract_step t sccm_dir filepath w = (None, w)
     \<and> extract_step t sccm_dir filepath (snd (extract_step t sccm_dir filepath w)) = (None, w)
     \<and> invocations (snd (extract_step t sccm_dir filepath w)) = invocations w"
proof -
  have "already_extracted (disk w) (pjoin sccm_dir (stem filepath)) = Some True"
    using assms by (simp add: already_extracted_def any_iterdir_def)
  then have "extract_step t sccm_dir filepath w = (None, w)"
    by (simp add: extract_step_def)
  then show ?thesis by simp
qed

lemma sample_stem: "pjoin [''out'', ''SCCM''] (stem [''out'', ''SCCM'', ''pack.exe'']) = [''out'', ''SCCM'', ''pack'']"
  by code_simp

lemma sample_extraction:
  "extract_step sample_tools [''out'', ''SCCM''] [''out'', ''SCCM'', ''pack.exe''] archive_world
     = (None, extracted_world)"
  by code_simp

lemma sample_populated:
  "path_exists (disk extracted_world) (pjoin [''out'', ''SCCM''] (stem [''out'', ''SCCM'', ''pack.exe'']))"
  by code_simp

lemma sample_entries:
  "iterdir (disk extracted_world) (pjoin [''out'', ''SCCM''] (stem [''out'', ''SCCM'', ''pack.exe'']))
     = Some [[''out'', ''SCCM'', ''pack'', ''net.inf'']]"
  by code_simp

theorem populated_directory_is_skipped_witness:
  "extract_step sample_tools [''out'', ''SCCM''] [''out'', ''SCCM'', ''pack.exe''] archive_world
     = (None, extracted_world)
   \<and> path_exists (disk extracted_world) (pjoin [''out'', ''SCCM''] (stem [''out'', ''SCCM'', ''pack.exe'']))
   \<and> iterdir (disk extracted_world) (pjoin [''out'', ''SCCM''] (stem [''out'', ''SCCM'', ''pack.exe'']))
       = Some [[''out'', ''SCCM'', ''pack'', ''net.inf'']]
   \<and> extract_step sample_tools [''out'', ''SCCM''] [''out'', ''SCCM'', ''pack.exe''] extracted_world
     = (None, extracted_world)"
proof -
  have ne: "[[''out'', ''SCCM'', ''pack'', ''net.inf'']] \<noteq> []" by simp
  from populated_directory_is_skipped[OF sample_populated sample_entries ne, of sample_tools]
    sample_extraction sample_populated sample_entries
  show ?thesis by simp
qed

lemma extract_inner_candidates:
  "extract_inner t sevenz_cmd d payload w = try_candidates t d (inner_candidates t sevenz_cmd d payload) w"
  by (simp add: extract_inner_def inner_candidates_def split: prod.splits attempt.splits)

lemma remove_artifact_no_new:
  "map_of (remove_artifact d fs a) q = Some n \<Longrightarrow> map_of fs q = Some n"
  by (auto simp: remove_artifact_def Let_def unlink_def delete_conv'
      split: if_splits option.splits node.splits)

lemma remove_artifact_gone: "map_of (remove_artifact d fs a) (pjoin d a) \<noteq> Some (File c)"
  by (auto simp: remove_artifact_def Let_def unlink_def delete_conv' path_exists_def
      split: if_splits option.splits node.splits)

lemma cleanup_fold_gone:
  "a \<in> set as \<Longrightarrow> map_of (foldl (remove_artifact d) fs as) (pjoin d a) \<noteq> Some (File c)"
proof (induction as rule: rev_induct)
  case Nil
  then show ?case by simp
next
  case (snoc x xs)
  show ?case
  proof (cases "a = x")
    case True
    then show ?thesis by (simp add: remove_artifact_gone)
  next
    case False
    with snoc have before: "map_of (foldl (remove_artifact d) fs xs) (pjoin d a) \<noteq> Some (File c)"
      by simp
    show ?thesis
    proof
      assume "map_of (foldl (remove_artifact d) fs (xs @ [x])) (pjoin d a) = Some (File c)"
      then have "map_of (remove_artifact d (foldl (remove_artifact d) fs xs) x) (pjoin d a) = Some (File c)"
        by simp
      from remove_artifact_no_new[OF this] before show False by simp
    qed
  qed
qed

lemma cleanup_gone:
  "a \<in> set artifacts \<Longrightarrow> map_of (cleanup_extract_artifacts d fs) (pjoin d a) \<noteq> Some (File c)"
  unfolding cleanup_extract_artifacts_def by (rule cleanup_fold_gone)

lemma attempt_inner_cases:
  assumes "attempt_inner t cmd d w = (a, w')"
  shows "\<exists>r. invocations w' = invocations w @ [(cmd, r)]
     \<and> (a = Won) = (r = Exited 0)
     \<and> (a = Lost) = exited_nonzero r
     \<and> (a = Won \<longrightarrow> (\<forall>x \<in> set artifacts. \<forall>c. map_of (disk w') (pjoin d x) \<noteq> Some (File c)))"
proof -
  obtain r fs where rp: "run_proc t cmd (disk w) = (r, fs)"
    by (cases "run_proc t cmd (disk w)")
  show ?thesis
  proof (cases r)
    case (Exited rc)
    with rp assms show ?thesis
      by (cases "rc = 0") (auto simp: attempt_inner_def invoke_def exited_nonzero_def cleanup_gone)
  next
    case TimedOut
    with rp assms show ?thesis
      by (auto simp: attempt_inner_def invoke_def exited_nonzero_def)
  next
    case SpawnFailed
    with rp assms show ?thesis
      by (auto simp: attempt_inner_def invoke_def exited_nonzero_def)
  qed
qed

lemma exited_nonzero_not_zero: "exited_nonzero r \<Longrightarrow> r \<noteq> Exited 0"
  by (auto simp: exited_nonzero_def)

lemma try_candidates_log:
  "try_candidates t d cands w = (ok, w') \<Longrightarrow> cands \<noteq> [] \<Longrightarrow>
     \<exists>new. invocations w' = invocations w @ new \<and> new \<noteq> []
        \<and> map fst new = take (length new) cands
        \<and> (\<forall>e \<in> set (butlast new). exited_nonzero (snd e))
        \<and> ok = (snd (last new) = Exited 0)
        \<and> (ok \<longrightarrow> (\<forall>x \<in> set artifacts. \<forall>c. map_of (disk w') (pjoin d x) \<noteq> Some (File c)))
        \<and> ((\<forall>e \<in> set new. exited_nonzero (snd e)) \<longrightarrow> length new = length cands)"
proof (induction cands arbitrary: w)
  case Nil
  then show ?case by simp
next
  case (Cons cmd cmds)
  obtain a w1 where at: "attempt_inner t cmd d w = (a, w1)"
    by (cases "attempt_inner t cmd d w")
  from attempt_inner_cases[OF at] obtain r where
    log: "invocations w1 = invocations w @ [(cmd, r)]"
    and won: "(a = Won) = (r = Exited 0)"
    and lost: "(a = Lost) = exited_nonzero r"
    and gone: "a = Won \<longrightarrow> (\<forall>x \<in> set artifacts. \<forall>c. map_of (disk w1) (pjoin d x) \<noteq> Some (File c))"
    by blast
  show ?case
  proof (cases a)
    case Won
    with Cons.prems(1) at have "ok" and "w' = w1" by simp_all
    with Won log won lost gone show ?thesis
      by (intro exI[of _ "[(cmd, r)]"]) (simp add: exited_nonzero_def)
  next
    case Aborted
    with Cons.prems(1) at have "\<not> ok" and "w' = w1" by simp_all
    with Aborted log won lost show ?thesis
      by (intro exI[of _ "[(cmd, r)]"]) simp
  next
    case Lost
    with Cons.prems(1) at have rest: "try_candidates t d cmds w1 = (ok, w')" by simp
    from Lost lost have nz: "exited_nonzero r" by simp
    show ?thesis
    proof (cases "cmds = []")
      case True
      with rest have "\<not> ok" and "w' = w1" by simp_all
      with True log nz exited_nonzero_not_zero[OF nz] show ?thesis
        by (intro exI[of _ "[(cmd, r)]"]) simp
    next
      case False
      from Cons.IH[OF rest False] obtain new where
        n1: "invocations w' = invocations w1 @ new" and n2: "new \<noteq> []"
        and n3: "map fst new = take (length new) cmds"
        and n4: "\<forall>e \<in> set (butlast new). exited_nonzero (snd e)"
        and n5: "ok = (snd (last new) = Exited 0)"
        and n6: "ok \<longrightarrow> (\<forall>x \<in> set artifacts. \<forall>c. map_of (disk w') (pjoin d x) \<noteq> Some (File c))"
        and n7: "(\<forall>e \<in> set new. exited_nonzero (snd e)) \<longrightarrow> length new = length cmds"
        by blast
      have "invocations w' = invocations w @ ((cmd, r) # new)"
        using n1 log by simp
      moreover have "map fst ((cmd, r) # new) = take (length ((cmd, r) # new)) (cmd # cmds)"
        using n3 by simp
      moreover have "\<forall>e \<in> set (butlast ((cmd, r) # new)). exited_nonzero (snd e)"
        using n2 n4 nz by simp
      moreover have "ok = (snd (last ((cmd, r) # new)) = Exited 0)"
        using n2 n5 by simp
      moreover have "(\<forall>e \<in> set ((cmd, r) # new). exited_nonzero (snd e))
          \<longrightarrow> length ((cmd, r) # new) = length (cmd # cmds)"
        using n7 by simp
      ultimately show ?thesis
        using n6 by (intro exI[of _ "(cmd, r) # new"]) simp
    qed
  qed
qed

lemma inner_candidates_nonempty: "inner_candidates t s d p \<noteq> []"
  by (simp add: inner_candidates_def)

text \<open>
  Claim C8. On a host without native extraction, when the outer unpack succeeded and left
  the payload \<^verbatim>\<open>[0]\<close>, the tools run after it are an initial part of the list
  \<^verbatim>\<open>cabextract\<close>, \<^verbatim>\<open>innoextract\<close>, \<^verbatim>\<open>7z -t*\<close> (the first two when installed), at least one is
  run, and every one but the last exited with a non-zero code. The result is \<open>True\<close>
  exactly when the last one exited with 0, and then no file named \<^verbatim>\<open>[0]\<close>,
  \<^verbatim>\<open>CERTIFICATE\<close>, \<^verbatim>\<open>[1]\<close> or \<^verbatim>\<open>[2]\<close> is left in the directory. When all that ran exited
  with a non-zero code, all of the list was tried.
\<close>

theorem stage_two_order:
  assumes "find_sevenz t [''7z'', ''7zz'', ''7za''] = Some sevenz_cmd"
    and "invoke t [sevenz_cmd, ''x'', ''-y'', ''-o'' @ path_str d, path_str exe] w = (Exited 0, w1)"
    and "path_exists (disk w1) (pjoin d ''[0]'')"
    and "extract_sccm_unix t exe d w = (ok, w')"
  shows "\<exists>new. invocations w' = invocations w1 @ new \<and> new \<noteq> []
     \<and> map fst new = take (length new) (inner_candidates t sevenz_cmd d (pjoin d ''[0]''))
     \<and> (\<forall>e \<in> set (butlast new). exited_nonzero (snd e))
     \<and> ok = (snd (last new) = Exited 0)
     \<and> (ok \<longrightarrow> (\<forall>x \<in> set artifacts. \<forall>c. map_of (disk w') (pjoin d x) \<noteq> Some (File c)))
     \<and> ((\<forall>e \<in> set new. exited_nonzero (snd e))
          \<longrightarrow> length new = length (inner_candidates t sevenz_cmd d (pjoin d ''[0]'')))"
proof -
  from assms have "extract_inner t sevenz_cmd d (pjoin d ''[0]'') w1 = (ok, w')"
    by (simp add: extract_sccm_unix_def)
  then have "try_candidates t d (inner_candidates t sevenz_cmd d (pjoin d ''[0]'')) w1 = (ok, w')"
    by (simp add: extract_inner_candidates)
  from try_candidates_log[OF this inner_candidates_nonempty] show ?thesis .
qed

lemma sample_sevenz: "find_sevenz sample_tools [''7z'', ''7zz'', ''7za''] = Some ''7z''"
  by code_simp

lemma sample_outer:
  "invoke sample_tools [''7z'', ''x'', ''-y'', ''-o'' @ path_str [''out'', ''SCCM'', ''pack''],
      path_str [''out'', ''SCCM'', ''pack.exe'']] unpack_world = (Exited 0, outer_world)"
  by code_simp

lemma sample_payload: "path_exists (disk outer_world) (pjoin [''out'', ''SCCM'', ''pack''] ''[0]'')"
  by code_simp

lemma sample_unix:
  "extract_sccm_unix sample_tools [''out'', ''SCCM'', ''pack.exe''] [''out'', ''SCCM'', ''pack'']
     unpack_world = (True, extracted_world)"
  by code_simp

lemma sample_candidates:
  "inner_candidates sample_tools ''7z'' [''out'', ''SCCM'', ''pack''] (pjoin [''out'', ''SCCM'', ''pack''] ''[0]'')
     = [[''/usr/bin/cabextract'', ''-d'', ''out/SCCM/pack'', ''out/SCCM/pack/[0]''],
        [''/usr/bin/innoextract'', ''-d'', ''out/SCCM/pack'', ''out/SCCM/pack/[0]''],
        [''7z'', ''x'', ''-y'', ''-oout/SCCM/pack'', ''-t*'', ''out/SCCM/pack/[0]'']]"
  by code_simp

lemma sample_log:
  "invocations extracted_world = invocations outer_world @
     [([''/usr/bin/cabextract'', ''-d'', ''out/SCCM/pack'', ''out/SCCM/pack/[0]''], Exited 1),
      ([''/usr/bin/innoextract'', ''-d'', ''out/SCCM/pack'', ''out/SCCM/pack/[0]''], Exited 0)]"
  by (simp add: extracted_world_def outer_world_def)

lemma sample_cleaned:
  "map_of (disk extracted_world) [''out'', ''SCCM'', ''pack'', ''[0]''] = None
   \<and> map_of (disk extracted_world) [''out'', ''SCCM'', ''pack'', ''CERTIFICATE''] = None"
  by (simp add: extracted_world_def)

theorem stage_two_order_witness:
  "find_sevenz sample_tools [''7z'', ''7zz'', ''7za''] = Some ''7z''
   \<and> invoke sample_tools [''7z'', ''x'', ''-y'', ''-o'' @ path_str [''out'', ''SCCM'', ''pack''],
        path_str [''out'', ''SCCM'', ''pack.exe'']] unpack_world = (Exited 0, outer_world)
   \<and> path_exists (disk outer_world) (pjoin [''out'', ''SCCM'', ''pack''] ''[0]'')
   \<and> extract_sccm_unix sample_tools [''out'', ''SCCM'', ''pack.exe''] [''out'', ''SCCM'', ''pack'']
        unpack_world = (True, extracted_world)
   \<and> inner_candidates sample_tools ''7z'' [''out'', ''SCCM'', ''pack''] (pjoin [''out'', ''SCCM'', ''pack''] ''[0]'')
     = [[''/usr/bin/cabextract'', ''-d'', ''out/SCCM/pack'', ''out/SCCM/pack/[0]''],
        [''/usr/bin/innoextract'', ''-d'', ''out/SCCM/pack'', ''out/SCCM/pack/[0]''],
        [''7z'', ''x'', ''-y'', ''-oout/SCCM/pack'', ''-t*'', ''out/SCCM/pack/[0]'']]
   \<and> invocations extracted_world = invocations outer_world @
     [([''/usr/bin/cabextract'', ''-d'', ''out/SCCM/pack'', ''out/SCCM/pack/[0]''], Exited 1),
      ([''/usr/bin/innoextract'', ''-d'', ''out/SCCM/pack'', ''out/SCCM/pack/[0]''], Exited 0)]
   \<and> map_of (disk extracted_world) [''out'', ''SCCM'', ''pack'', ''[0]''] = None
   \<and> map_of (disk extracted_world) [''out'', ''SCCM'', ''pack'', ''CERTIFICATE''] = None"
proof -
  note inst = stage_two_order[OF sample_sevenz sample_outer sample_payload sample_unix]
  from inst sample_sevenz sample_outer sample_payload sample_unix sample_candidates sample_log
    sample_cleaned
  show ?thesis by blast
qed

end
